theory Spec2Isabelle
  imports Complex_Main "HOL-Library.Log_Nat" "HOL-Library.AList" "HOL-Library.Code_Target_Numeral"
begin

section \<open>Python values used by the intents client\<close>

text \<open>
  The client is Python. Exceptions are values of \<open>error\<close>; a function that can raise
  returns \<open>error + 'a\<close> with \<open>Inl\<close> for the exception. The names are those of the Python
  exception classes; the messages are kept where the client itself raises.
\<close>

datatype error =
    ValueError string
  | KeyError string
  | OverflowError
  | ZeroDivisionError
  | RequestException string
  | HTTPError nat
  | JSONDecodeError
  | SignerError string

definition bind_err :: "error + 'a \<Rightarrow> ('a \<Rightarrow> error + 'b) \<Rightarrow> error + 'b" where
  "bind_err r f = (case r of Inl e \<Rightarrow> Inl e | Inr x \<Rightarrow> f x)"

subsection \<open>Floats\<close>

text \<open>
  A Python \<open>float\<close> is an IEEE 754 binary64 number. \<open>Finite x\<close> stands for the double
  whose value is the rational \<open>x\<close>; the two zeros are not told apart (no function below
  can observe the sign of a zero). Every arithmetic operation computes the exact
  rational result and rounds it to the nearest double, ties to even, with gradual
  underflow below \<open>2 powi (-1022)\<close> and overflow to an infinity at \<open>2 powi 1024\<close>.
\<close>

datatype pyfloat = Finite rat | PosInf | NegInf | NaN

definition ilog2 :: "rat \<Rightarrow> int" where
  \<comment> \<open>for \<open>0 < x\<close>: the exponent \<open>e\<close> with \<open>2 powi e \<le> x < 2 powi (e + 1)\<close>\<close>
  "ilog2 x =
     (let k = bitlen (fst (quotient_of x)) - bitlen (snd (quotient_of x))
      in if 2 powi k \<le> x then k else k - 1)"

definition round_half_even :: "rat \<Rightarrow> int" where
  "round_half_even x =
     (let f = \<lfloor>x\<rfloor>; r = x - of_int f
      in if r < 1 / 2 then f
         else if 1 / 2 < r then f + 1
         else if even f then f else f + 1)"

definition quantum :: "rat \<Rightarrow> int" where
  \<comment> \<open>exponent of the unit in the last place of the doubles around \<open>x\<close>: 53 significant bits\<close>
  "quantum x = max (ilog2 \<bar>x\<bar> - 52) (- 1074)"

definition round_double :: "rat \<Rightarrow> pyfloat" where
  "round_double x =
     (if x = 0 then Finite 0
      else
        let y = of_int (round_half_even (x / 2 powi quantum x)) * 2 powi quantum x
        in if 2 powi 1024 \<le> \<bar>y\<bar> then (if 0 < x then PosInf else NegInf) else Finite y)"

fun fmul :: "pyfloat \<Rightarrow> pyfloat \<Rightarrow> pyfloat" where
  "fmul NaN _ = NaN"
| "fmul _ NaN = NaN"
| "fmul (Finite x) (Finite y) = round_double (x * y)"
| "fmul (Finite x) PosInf = (if x = 0 then NaN else if 0 < x then PosInf else NegInf)"
| "fmul (Finite x) NegInf = (if x = 0 then NaN else if 0 < x then NegInf else PosInf)"
| "fmul PosInf (Finite y) = (if y = 0 then NaN else if 0 < y then PosInf else NegInf)"
| "fmul NegInf (Finite y) = (if y = 0 then NaN else if 0 < y then NegInf else PosInf)"
| "fmul PosInf PosInf = PosInf"
| "fmul PosInf NegInf = NegInf"
| "fmul NegInf PosInf = NegInf"
| "fmul NegInf NegInf = PosInf"

fun fadd :: "pyfloat \<Rightarrow> pyfloat \<Rightarrow> pyfloat" where
  "fadd NaN _ = NaN"
| "fadd _ NaN = NaN"
| "fadd (Finite x) (Finite y) = round_double (x + y)"
| "fadd (Finite x) PosInf = PosInf"
| "fadd (Finite x) NegInf = NegInf"
| "fadd PosInf (Finite y) = PosInf"
| "fadd NegInf (Finite y) = NegInf"
| "fadd PosInf PosInf = PosInf"
| "fadd PosInf NegInf = NaN"
| "fadd NegInf PosInf = NaN"
| "fadd NegInf NegInf = NegInf"

fun fdiv :: "pyfloat \<Rightarrow> pyfloat \<Rightarrow> error + pyfloat" where
  \<comment> \<open>Python's \<open>/\<close> on floats raises on a zero divisor instead of returning an infinity\<close>
  "fdiv x (Finite y) =
     (if y = 0 then Inl ZeroDivisionError
      else case x of
             Finite a \<Rightarrow> Inr (round_double (a / y))
           | PosInf \<Rightarrow> Inr (if 0 < y then PosInf else NegInf)
           | NegInf \<Rightarrow> Inr (if 0 < y then NegInf else PosInf)
           | NaN \<Rightarrow> Inr NaN)"
| "fdiv NaN _ = Inr NaN"
| "fdiv _ NaN = Inr NaN"
| "fdiv (Finite a) _ = Inr (Finite 0)"
| "fdiv _ _ = Inr NaN"

fun fgt :: "pyfloat \<Rightarrow> pyfloat \<Rightarrow> bool" where
  \<comment> \<open>\<open>a > b\<close>; every comparison with NaN is false\<close>
  "fgt NaN _ = False"
| "fgt _ NaN = False"
| "fgt (Finite x) (Finite y) = (y < x)"
| "fgt PosInf PosInf = False"
| "fgt PosInf _ = True"
| "fgt _ PosInf = False"
| "fgt NegInf _ = False"
| "fgt _ NegInf = True"

fun fle :: "pyfloat \<Rightarrow> pyfloat \<Rightarrow> bool" where
  \<comment> \<open>\<open>a <= b\<close>\<close>
  "fle NaN _ = False"
| "fle _ NaN = False"
| "fle a b = (\<not> fgt a b)"

definition float_of_int :: "int \<Rightarrow> error + pyfloat" where
  \<comment> \<open>conversion of an \<open>int\<close> operand: correctly rounded, OverflowError when out of range\<close>
  "float_of_int n =
     (case round_double (of_int n) of Finite y \<Rightarrow> Inr (Finite y) | _ \<Rightarrow> Inl OverflowError)"

definition int_of_float :: "pyfloat \<Rightarrow> error + int" where
  \<comment> \<open>\<open>int(x)\<close>: truncation towards zero\<close>
  "int_of_float x =
     (case x of
        Finite a \<Rightarrow> Inr (if 0 \<le> a then \<lfloor>a\<rfloor> else \<lceil>a\<rceil>)
      | NaN \<Rightarrow> Inl (ValueError ''cannot convert float NaN to integer'')
      | _ \<Rightarrow> Inl OverflowError)"

subsection \<open>Decimal strings\<close>

fun str_nat :: "nat \<Rightarrow> string" where
  "str_nat n =
     (if n < 10 then [''0123456789'' ! n]
      else str_nat (n div 10) @ [''0123456789'' ! (n mod 10)])"

declare str_nat.simps [simp del]

definition str_int :: "int \<Rightarrow> string" where
  \<comment> \<open>\<open>str(n)\<close> of an \<open>int\<close>\<close>
  "str_int i = (if i < 0 then CHR ''-'' # str_nat (nat (- i)) else str_nat (nat i))"

definition is_digit :: "char \<Rightarrow> bool" where
  "is_digit c = (48 \<le> (of_char c :: nat) \<and> (of_char c :: nat) \<le> 57)"

fun nat_of_digits :: "nat \<Rightarrow> string \<Rightarrow> nat" where
  "nat_of_digits acc [] = acc"
| "nat_of_digits acc (c # cs) = nat_of_digits (10 * acc + (of_char c - 48)) cs"

definition is_space :: "char \<Rightarrow> bool" where
  \<comment> \<open>the blanks \<open>float\<close> strips from both ends of a string of code points below 256:
      tab to carriage return, the space, and the two Latin-1 blanks NEL and NBSP\<close>
  "is_space c = ((9 \<le> (of_char c :: nat) \<and> (of_char c :: nat) \<le> 13) \<or>
                 (of_char c :: nat) = 32 \<or> (of_char c :: nat) = 133 \<or> (of_char c :: nat) = 160)"

definition strip :: "string \<Rightarrow> string" where
  "strip s = rev (dropWhile is_space (rev (dropWhile is_space s)))"

fun matches_ci :: "string \<Rightarrow> string \<Rightarrow> bool" where
  \<comment> \<open>comparison with a lower-case word, the case of the letters ignored\<close>
  "matches_ci [] [] = True"
| "matches_ci (c # cs) (p # ps) =
     ((c = p \<or> (of_char c :: nat) + 32 = of_char p) \<and> matches_ci cs ps)"
| "matches_ci _ _ = False"

fun take_digits :: "nat \<Rightarrow> nat \<Rightarrow> string \<Rightarrow> nat \<times> nat \<times> string" where
  \<comment> \<open>the rest of a digit part: digits, each optionally preceded by one underscore;
      returns the number read, the count of its digits and the unread rest\<close>
  "take_digits acc cnt [] = (acc, cnt, [])"
| "take_digits acc cnt [c] =
     (if is_digit c then (10 * acc + (of_char c - 48), Suc cnt, []) else (acc, cnt, [c]))"
| "take_digits acc cnt (c # d # ds) =
     (if is_digit c then take_digits (10 * acc + (of_char c - 48)) (Suc cnt) (d # ds)
      else if c = CHR ''_'' \<and> is_digit d
        then take_digits (10 * acc + (of_char d - 48)) (Suc cnt) ds
      else (acc, cnt, c # d # ds))"

definition digitpart :: "string \<Rightarrow> (nat \<times> nat \<times> string) option" where
  \<comment> \<open>\<open>digitpart ::= digit (["_"] digit)*\<close>\<close>
  "digitpart s =
     (case s of
        c # cs \<Rightarrow> if is_digit c then Some (take_digits (of_char c - 48) 1 cs) else None
      | [] \<Rightarrow> None)"

definition point_float :: "string \<Rightarrow> (rat \<times> string) option" where
  \<comment> \<open>\<open>number ::= [digitpart] "." digitpart | digitpart ["."]\<close>\<close>
  "point_float s =
     (case digitpart s of
        Some (m, k, r) \<Rightarrow>
          (case r of
             c # r' \<Rightarrow>
               if c = CHR ''.''
               then (case digitpart r' of
                       Some (f, j, r'') \<Rightarrow> Some (of_nat m + of_nat f / 10 ^ j, r'')
                     | None \<Rightarrow> Some (of_nat m, r'))
               else Some (of_nat m, r)
           | [] \<Rightarrow> Some (of_nat m, []))
      | None \<Rightarrow>
          (case s of
             c # r' \<Rightarrow>
               if c = CHR ''.''
               then (case digitpart r' of
                       Some (f, j, r'') \<Rightarrow> Some (of_nat f / 10 ^ j, r'')
                     | None \<Rightarrow> None)
               else None
           | [] \<Rightarrow> None))"

definition split_sign :: "string \<Rightarrow> bool \<times> string" where
  "split_sign s =
     (case s of
        c # cs \<Rightarrow> if c = CHR ''-'' then (True, cs)
                  else if c = CHR ''+'' then (False, cs) else (False, s)
      | [] \<Rightarrow> (False, s))"

definition exponent :: "string \<Rightarrow> int option" where
  \<comment> \<open>\<open>exponent ::= ("e" | "E") [sign] digitpart\<close>, or nothing; it must end the string\<close>
  "exponent r =
     (case r of
        [] \<Rightarrow> Some 0
      | c # r' \<Rightarrow>
          if c = CHR ''e'' \<or> c = CHR ''E''
          then (case split_sign r' of
                  (neg, ds) \<Rightarrow>
                    (case digitpart ds of
                       Some (e, k, rest) \<Rightarrow>
                         if rest = [] then Some (if neg then - int e else int e) else None
                     | None \<Rightarrow> None))
          else None)"

definition float_of_str :: "string \<Rightarrow> error + pyfloat" where
  \<comment> \<open>\<open>float(s)\<close> of a string: blanks stripped at both ends, an optional sign, then
      \<open>inf\<close>, \<open>infinity\<close> or \<open>nan\<close> in any case, or a decimal number with optional
      fraction and exponent; the value is the nearest double, an infinity when out of
      range. Anything else is a ValueError. A \<open>char\<close> stands for a code point below 256.\<close>
  "float_of_str s =
     (case split_sign (strip s) of
        (neg, u) \<Rightarrow>
          if matches_ci u ''inf'' \<or> matches_ci u ''infinity''
            then Inr (if neg then NegInf else PosInf)
          else if matches_ci u ''nan'' then Inr NaN
          else (case point_float u of
                  None \<Rightarrow> Inl (ValueError ''could not convert string to float'')
                | Some (m, r) \<Rightarrow>
                    (case exponent r of
                       None \<Rightarrow> Inl (ValueError ''could not convert string to float'')
                     | Some e \<Rightarrow> Inr (round_double ((if neg then - m else m) * 10 powi e)))))"

section \<open>Asset registry and amount codec\<close>

record asset =
  token_id :: string
  omft :: "string option"
  decimals :: nat
  shielded :: "bool option"

definition ASSET_MAP :: "string \<rightharpoonup> asset" where
  "ASSET_MAP =
     [''USDC'' \<mapsto> \<lparr>token_id = ''a0b86991c6218b36c1d19d4a2e9eb0ce3606eb48.factory.bridge.near'',
                    omft = Some ''eth-0xa0b86991c6218b36c1d19d4a2e9eb0ce3606eb48.omft.near'',
                    decimals = 6, shielded = None\<rparr>,
      ''NEAR'' \<mapsto> \<lparr>token_id = ''wrap.near'', omft = None, decimals = 24, shielded = None\<rparr>,
      ''ZEC'' \<mapsto> \<lparr>token_id = ''zcash.factory.bridge.near'',
                   omft = Some ''zcash-token.omft.near'',
                   decimals = 8, shielded = Some True\<rparr>]"

definition asset_of :: "string \<Rightarrow> error + asset" where
  \<comment> \<open>\<open>ASSET_MAP[token]\<close>\<close>
  "asset_of token = (case ASSET_MAP token of None \<Rightarrow> Inl (KeyError token) | Some a \<Rightarrow> Inr a)"

definition get_asset_id :: "string \<Rightarrow> error + string" where
  "get_asset_id token =
     (if token = ''NEAR'' then Inr ''near''
      else if token = ''ZEC''
        then bind_err (asset_of token) (\<lambda>a. Inr (''nep141:'' @ token_id a))
      else if token = ''USDC''
        then Inr ''nep141:a0b86991c6218b36c1d19d4a2e9eb0ce3606eb48.factory.bridge.near''
      else bind_err (asset_of token) (\<lambda>a. Inr (''nep141:'' @ token_id a)))"

definition to_decimals :: "pyfloat \<Rightarrow> nat \<Rightarrow> error + string" where
  \<comment> \<open>\<open>str(int(amount * 10 ** decimals))\<close> on a float \<open>amount\<close>: the multiplication converts
      the integer \<open>10 ** decimals\<close> to the nearest double and rounds the product\<close>
  "to_decimals amount dec =
     bind_err (float_of_int (10 ^ dec)) (\<lambda>m.
     bind_err (int_of_float (fmul amount m)) (\<lambda>n. Inr (str_int n)))"

definition from_decimals :: "string \<Rightarrow> nat \<Rightarrow> error + pyfloat" where
  \<comment> \<open>\<open>float(amount) / 10 ** decimals\<close>\<close>
  "from_decimals amount dec =
     bind_err (float_of_str amount) (\<lambda>x.
     bind_err (float_of_int (10 ^ dec)) (\<lambda>m. fdiv x m))"

definition roundtrip :: "pyfloat \<Rightarrow> nat \<Rightarrow> error + pyfloat" where
  \<comment> \<open>\<open>from_decimals(to_decimals(amount, decimals), decimals)\<close>\<close>
  "roundtrip amount dec = bind_err (to_decimals amount dec) (\<lambda>s. from_decimals s dec)"

section \<open>Dictionaries\<close>

text \<open>
  A Python \<open>dict\<close> with string keys is an association list in insertion order.
  \<open>d[k] = v\<close> is \<open>AList.update k v d\<close>: it replaces the value of a key that is present,
  in place, and appends a new key at the end. A display \<open>{k1: v1, k2: v2}\<close> stores its
  items from left to right.
\<close>

type_synonym 'v dict = "(string \<times> 'v) list"

definition dict_get :: "'v dict \<Rightarrow> string \<Rightarrow> error + 'v" where
  \<comment> \<open>\<open>d[k]\<close>\<close>
  "dict_get d k = (case map_of d k of None \<Rightarrow> Inl (KeyError k) | Some v \<Rightarrow> Inr v)"

section \<open>Swap request builder\<close>

record IntentRequest =
  request :: "string dict"
  thread :: "string option"
  min_deadline_ms :: int

record serialized =
  assets :: "string dict"
  amounts :: "string dict"
  deadline_type :: string
  deadline_ms :: int
  slippage :: "string option"

definition IntentRequest_init :: "string dict option \<Rightarrow> string option \<Rightarrow> int \<Rightarrow> IntentRequest" where
  \<comment> \<open>\<open>__init__(self, request=None, thread=None, min_deadline_ms=120000)\<close>;
      \<open>request or {}\<close> takes a fresh dictionary when no (or an empty) one is passed\<close>
  "IntentRequest_init req thr dl =
     \<lparr>request = (case req of None \<Rightarrow> [] | Some r \<Rightarrow> r), thread = thr, min_deadline_ms = dl\<rparr>"

definition IntentRequest_new :: IntentRequest where
  \<comment> \<open>\<open>IntentRequest()\<close>\<close>
  "IntentRequest_new = IntentRequest_init None None 120000"

text \<open>
  The setters mutate the object and return it. A setter that raises after its first
  assignment leaves that assignment behind, so both return the exception (if any) and the
  object as it is afterwards.
\<close>

definition set_asset_in :: "IntentRequest \<Rightarrow> string \<Rightarrow> pyfloat \<Rightarrow> error option \<times> IntentRequest" where
  "set_asset_in self asset_name amount =
     (case ASSET_MAP asset_name of
        None \<Rightarrow> (Some (ValueError (''Unsupported asset: '' @ asset_name)), self)
      | Some a \<Rightarrow>
          (case get_asset_id asset_name of
             Inl e \<Rightarrow> (Some e, self)
           | Inr aid \<Rightarrow>
               let self1 = self\<lparr>request := AList.update ''assetIn'' aid (request self)\<rparr>
               in case to_decimals amount (decimals a) of
                    Inl e \<Rightarrow> (Some e, self1)
                  | Inr s \<Rightarrow> (None, self1\<lparr>request := AList.update ''amountIn'' s (request self1)\<rparr>)))"

definition set_asset_out :: "IntentRequest \<Rightarrow> string \<Rightarrow> pyfloat option \<Rightarrow> error option \<times> IntentRequest" where
  "set_asset_out self asset_name amount =
     (case ASSET_MAP asset_name of
        None \<Rightarrow> (Some (ValueError (''Unsupported asset: '' @ asset_name)), self)
      | Some a \<Rightarrow>
          (case get_asset_id asset_name of
             Inl e \<Rightarrow> (Some e, self)
           | Inr aid \<Rightarrow>
               let self1 = self\<lparr>request := AList.update ''assetOut'' aid (request self)\<rparr>
               in case amount of
                    None \<Rightarrow> (None, self1)
                  | Some x \<Rightarrow>
                      (case to_decimals x (decimals a) of
                         Inl e \<Rightarrow> (Some e, self1)
                       | Inr s \<Rightarrow>
                           (None, self1\<lparr>request := AList.update ''amountOut'' s (request self1)\<rparr>))))"

definition serialize :: "IntentRequest \<Rightarrow> error + serialized" where
  "serialize self =
     bind_err (dict_get (request self) ''assetIn'') (\<lambda>asset_in.
     bind_err (dict_get (request self) ''assetOut'') (\<lambda>asset_out.
     bind_err (dict_get (request self) ''amountIn'') (\<lambda>amount_in.
       Inr \<lparr>assets = [(''in'', asset_in), (''out'', asset_out)],
            amounts = (case map_of (request self) ''amountOut'' of
                         None \<Rightarrow> [(''in'', amount_in)]
                       | Some amount_out \<Rightarrow> [(''in'', amount_in), (''out'', amount_out)]),
            deadline_type = ''relative'',
            deadline_ms = min_deadline_ms self,
            slippage = map_of (request self) ''slippage''\<rparr>)))"

text \<open>
  A history of setter calls on one object, each call either returning or raising (and
  the caller going on with the object).
\<close>

datatype setter_call = SetAssetIn string pyfloat | SetAssetOut string "pyfloat option"

fun run_call :: "IntentRequest \<Rightarrow> setter_call \<Rightarrow> IntentRequest" where
  "run_call self (SetAssetIn asset_name amount) = snd (set_asset_in self asset_name amount)"
| "run_call self (SetAssetOut asset_name amount) = snd (set_asset_out self asset_name amount)"

definition run_calls :: "IntentRequest \<Rightarrow> setter_call list \<Rightarrow> IntentRequest" where
  "run_calls self calls = foldl run_call self calls"

fun is_SetAssetIn :: "setter_call \<Rightarrow> bool" where
  "is_SetAssetIn (SetAssetIn _ _) = True"
| "is_SetAssetIn _ = False"

fun is_SetAssetOut :: "setter_call \<Rightarrow> bool" where
  "is_SetAssetOut (SetAssetOut _ _) = True"
| "is_SetAssetOut _ = False"

section \<open>The relay and the signer\<close>

text \<open>
  The relay, the signer, the random source and the clock are outside the program. A
  \<open>world\<close> fixes what they answer; every call to the relay or the signer is recorded as an
  \<open>event\<close>, in order, next to the value a function returns.
\<close>

type_synonym quote = "string dict"

record Intent =
  intent :: string
  diff :: "string dict"

record Quote =
  nonce :: string
  signer_id :: string
  verifying_contract :: string
  deadline :: string
  intents :: "Intent list"

record ShieldingOptions =
  enabled :: bool
  memo :: "string option"
  viewing_key :: "string option"

record ShieldParams =
  sp_shielded :: bool
  sp_memo :: "string option"
  sp_viewing_key :: "string option"

record ZcashCommitment =
  standard :: string
  payload :: Quote
  signature :: string
  public_key :: string
  shield_params :: "ShieldParams option"

text \<open>
  \<open>payload\<close> holds the quote that \<open>json.dumps\<close> renders as text. \<open>signer_sign\<close> is the
  signer on that text, base58-encoded, or the exception the signer raises;
  \<open>signer_public_key\<close> is the base58 text of its public key.
\<close>

record account =
  account_id :: string
  signer_sign :: "Quote \<Rightarrow> error + string"
  signer_public_key :: string

datatype 'r body =
    NotJson         \<comment> \<open>\<open>response.json()\<close> raises\<close>
  | NoResult        \<comment> \<open>the JSON object has no \<open>result\<close> member (a JSON-RPC error object)\<close>
  | Result 'r       \<comment> \<open>the JSON object's \<open>result\<close> member\<close>

datatype 'r reply =
    Raised string            \<comment> \<open>\<open>requests.post\<close> raises: no connection, timeout, ...\<close>
  | Response nat "'r body"   \<comment> \<open>a response with its status code\<close>

record world =
  getQuotes :: "serialized \<Rightarrow> quote list reply"
  publishIntent :: "ZcashCommitment \<Rightarrow> string dict reply"
  random_nonce :: string
  time_ms :: int

datatype event =
    GetQuotes serialized
  | Sign Quote
  | PublishIntent ZcashCommitment

definition raise_for_status :: "nat \<Rightarrow> error option" where
  \<comment> \<open>\<open>response.raise_for_status()\<close>: client and server error codes raise\<close>
  "raise_for_status status = (if 400 \<le> status \<and> status < 600 then Some (HTTPError status) else None)"

definition post_result :: "'r reply \<Rightarrow> error + 'r" where
  \<comment> \<open>the three steps both relay calls make:
      \<open>response = requests.post(...); response.raise_for_status(); response.json()["result"]\<close>\<close>
  "post_result r =
     (case r of
        Raised m \<Rightarrow> Inl (RequestException m)
      | Response status b \<Rightarrow>
          (case raise_for_status status of
             Some e \<Rightarrow> Inl e
           | None \<Rightarrow>
               (case b of
                  NotJson \<Rightarrow> Inl JSONDecodeError
                | NoResult \<Rightarrow> Inl (KeyError ''result'')
                | Result x \<Rightarrow> Inr x)))"

section \<open>Quote fetcher and selector\<close>

definition fetch_options_try :: "world \<Rightarrow> IntentRequest \<Rightarrow> (error + quote list) \<times> event list" where
  \<comment> \<open>the body of the \<open>try\<close>; \<open>request.serialize()\<close> is evaluated inside it, before the post\<close>
  "fetch_options_try w req =
     (case serialize req of
        Inl e \<Rightarrow> (Inl e, [])
      | Inr params \<Rightarrow> (post_result (getQuotes w params), [GetQuotes params]))"

definition fetch_options :: "world \<Rightarrow> IntentRequest \<Rightarrow> (error + quote list) \<times> event list" where
  \<comment> \<open>\<open>except Exception\<close>: log and \<open>return []\<close>\<close>
  "fetch_options w req =
     (case fetch_options_try w req of
        (Inl e, evs) \<Rightarrow> (Inr [], evs)
      | (Inr options, evs) \<Rightarrow> (Inr options, evs))"

definition amount_out_key :: "quote \<Rightarrow> error + pyfloat" where
  \<comment> \<open>\<open>lambda x: float(x["amount_out"])\<close>\<close>
  "amount_out_key x = bind_err (dict_get x ''amount_out'') float_of_str"

fun max_loop :: "('a \<Rightarrow> error + pyfloat) \<Rightarrow> 'a \<Rightarrow> pyfloat \<Rightarrow> 'a list \<Rightarrow> error + 'a" where
  "max_loop key best best_key [] = Inr best"
| "max_loop key best best_key (x # xs) =
     (case key x of
        Inl e \<Rightarrow> Inl e
      | Inr k \<Rightarrow> if fgt k best_key then max_loop key x k xs else max_loop key best best_key xs)"

definition py_max :: "('a \<Rightarrow> error + pyfloat) \<Rightarrow> 'a list \<Rightarrow> error + 'a" where
  \<comment> \<open>the builtin \<open>max(xs, key=key)\<close>: the keys are computed in order, and the item kept
      is replaced only by one whose key is greater\<close>
  "py_max key xs =
     (case xs of
        [] \<Rightarrow> Inl (ValueError ''max() arg is an empty sequence'')
      | x # rest \<Rightarrow> bind_err (key x) (\<lambda>k. max_loop key x k rest))"

definition select_best_option :: "quote list \<Rightarrow> error + quote" where
  "select_best_option options =
     (if options = [] then Inl (ValueError ''No options provided'')
      else py_max amount_out_key options)"

definition amount_out_value :: "quote \<Rightarrow> nat option" where
  \<comment> \<open>the number an \<open>amount_out\<close> field denotes, when it is an on-chain decimal string\<close>
  "amount_out_value q =
     (case map_of q ''amount_out'' of
        None \<Rightarrow> None
      | Some s \<Rightarrow> if s \<noteq> [] \<and> list_all is_digit s then Some (nat_of_digits 0 s) else None)"

section \<open>Commitment builder, publisher and orchestrator\<close>

definition create_shielded_token_diff_quote ::
  "world \<Rightarrow> account \<Rightarrow> string \<Rightarrow> pyfloat \<Rightarrow> string \<Rightarrow> pyfloat \<Rightarrow> ShieldingOptions option
     \<Rightarrow> (error + ZcashCommitment) \<times> event list" where
  "create_shielded_token_diff_quote w acct token_in amount_in token_out amount_out shield_options =
     (let options =
            (case shield_options of
               Some so \<Rightarrow> so
             | None \<Rightarrow>
                 if token_in = ''ZEC'' \<or> token_out = ''ZEC''
                 then \<lparr>enabled = True, memo = None, viewing_key = None\<rparr>
                 else \<lparr>enabled = False, memo = None, viewing_key = None\<rparr>);
          entries =
            bind_err (get_asset_id token_in) (\<lambda>id_in.
            bind_err (asset_of token_in) (\<lambda>a_in.
            bind_err (to_decimals amount_in (decimals a_in)) (\<lambda>s_in.
            bind_err (get_asset_id token_out) (\<lambda>id_out.
            bind_err (asset_of token_out) (\<lambda>a_out.
            bind_err (to_decimals amount_out (decimals a_out)) (\<lambda>s_out.
              Inr (AList.update id_out s_out (AList.update id_in (''-'' @ s_in) []))))))))
      in case entries of
           Inl e \<Rightarrow> (Inl e, [])
         | Inr d \<Rightarrow>
             let q = \<lparr>nonce = random_nonce w,
                      signer_id = account_id acct,
                      verifying_contract = ''intents.near'',
                      deadline = str_int (time_ms w + 120000),
                      intents = [\<lparr>intent = ''token_diff'', diff = d\<rparr>]\<rparr>
             in case signer_sign acct q of
                  Inl e \<Rightarrow> (Inl e, [Sign q])
                | Inr sig \<Rightarrow>
                    (Inr \<lparr>standard = ''raw_ed25519'',
                          payload = q,
                          signature = ''ed25519:'' @ sig,
                          public_key = ''ed25519:'' @ signer_public_key acct,
                          shield_params =
                            (if enabled options
                             then Some \<lparr>sp_shielded = True, sp_memo = memo options,
                                        sp_viewing_key = viewing_key options\<rparr>
                             else None)\<rparr>,
                     [Sign q]))"

definition publish_shielded_intent ::
  "world \<Rightarrow> ZcashCommitment \<Rightarrow> (error + string dict) \<times> event list" where
  \<comment> \<open>\<open>except Exception\<close>: log and \<open>raise\<close>, the same exception\<close>
  "publish_shielded_intent w signed_intent =
     (case post_result (publishIntent w signed_intent) of
        Inl e \<Rightarrow> (Inl e, [PublishIntent signed_intent])
      | Inr r \<Rightarrow> (Inr r, [PublishIntent signed_intent]))"

definition intent_swap_zec ::
  "world \<Rightarrow> account \<Rightarrow> string \<Rightarrow> pyfloat \<Rightarrow> string \<Rightarrow> string
     \<Rightarrow> (error + string dict) \<times> event list" where
  "intent_swap_zec w acct token_in amount_in token_out privacy_level =
     (case set_asset_in IntentRequest_new token_in amount_in of
        (Some e, _) \<Rightarrow> (Inl e, [])
      | (None, r1) \<Rightarrow>
     (case set_asset_out r1 token_out None of
        (Some e, _) \<Rightarrow> (Inl e, [])
      | (None, req) \<Rightarrow>
     (case fetch_options w req of
        (Inl e, evs) \<Rightarrow> (Inl e, evs)
      | (Inr options, evs) \<Rightarrow>
          if options = []
          then (Inl (ValueError (''No swap options available for '' @ token_in @ '' to '' @ token_out)),
                evs)
          else
     (case select_best_option options of
        Inl e \<Rightarrow> (Inl e, evs)
      | Inr best_option \<Rightarrow>
          let shield_options =
                (if privacy_level = ''shielded'' \<and> (token_in = ''ZEC'' \<or> token_out = ''ZEC'')
                 then \<lparr>enabled = True,
                       memo = Some (''Swap '' @ token_in @ '' to '' @ token_out),
                       viewing_key = None\<rparr>
                 else \<lparr>enabled = False, memo = None, viewing_key = None\<rparr>)
          in
     (case amount_out_key best_option of
        Inl e \<Rightarrow> (Inl e, evs)
      | Inr amount_out \<Rightarrow>
     (case create_shielded_token_diff_quote w acct token_in amount_in token_out amount_out
             (Some shield_options) of
        (Inl e, evs2) \<Rightarrow> (Inl e, evs @ evs2)
      | (Inr signed_intent, evs2) \<Rightarrow>
          (case publish_shielded_intent w signed_intent of
             (r, evs3) \<Rightarrow> (r, evs @ evs2 @ evs3))))))))"

fun signed_diffs :: "event list \<Rightarrow> string dict list" where
  \<comment> \<open>the diff maps of the intents handed to the signer, in order\<close>
  "signed_diffs [] = []"
| "signed_diffs (Sign q # evs) = map diff (intents q) @ signed_diffs evs"
| "signed_diffs (_ # evs) = signed_diffs evs"

fun is_GetQuotes :: "event \<Rightarrow> bool" where
  "is_GetQuotes (GetQuotes _) = True"
| "is_GetQuotes _ = False"

definition privacy_capable :: "string \<Rightarrow> bool" where
  \<comment> \<open>the registry's flag: \<open>ASSET_MAP[token].get('shielded')\<close>\<close>
  "privacy_capable token =
     (case ASSET_MAP token of None \<Rightarrow> False | Some a \<Rightarrow> shielded a = Some True)"

section \<open>Portfolio view\<close>

definition dict_get_default :: "'v dict \<Rightarrow> string \<Rightarrow> 'v \<Rightarrow> 'v" where
  \<comment> \<open>\<open>d.get(k, default)\<close>\<close>
  "dict_get_default d k dflt = (case map_of d k of None \<Rightarrow> dflt | Some v \<Rightarrow> v)"

definition sum_values :: "pyfloat dict \<Rightarrow> pyfloat" where
  \<comment> \<open>\<open>sum(portfolio.values())\<close>: the float additions from left to right, from 0
      (from Python 3.12 on the builtin compensates the rounding errors of these additions;
      where every partial sum is exact, as in the evaluation below, nothing changes)\<close>
  "sum_values portfolio = foldl fadd (Finite 0) (map snd portfolio)"

definition calculate_privacy_ratio :: "pyfloat dict \<Rightarrow> error + pyfloat" where
  \<comment> \<open>\<open>ZcashAgent._calculate_privacy_ratio\<close>\<close>
  "calculate_privacy_ratio portfolio =
     (let total_value = sum_values portfolio
      in if fle total_value (Finite 0) then Inr (Finite 0)
         else
           let privacy_value = dict_get_default portfolio ''ZEC'' (Finite 0)
           in bind_err (fdiv privacy_value total_value) (\<lambda>r. Inr (fmul r (Finite 100))))"

record analysis =
  portfolio :: "pyfloat dict"
  total_value_near :: pyfloat
  distributions :: "pyfloat dict"
  privacy_ratio :: pyfloat

definition value_near :: "string \<Rightarrow> pyfloat \<Rightarrow> pyfloat" where
  \<comment> \<open>the branch on the token inside the distribution loop: placeholder exchange rates\<close>
  "value_near token balance =
     (if token = ''NEAR'' then balance
      else if token = ''ZEC'' then fmul balance (Finite 10)
      else if token = ''USDC'' then fmul balance (Finite (1 / 4))
      else Finite 0)"

fun distribution_loop :: "pyfloat \<Rightarrow> pyfloat dict \<Rightarrow> pyfloat dict \<Rightarrow> error + pyfloat dict" where
  "distribution_loop total_value acc [] = Inr acc"
| "distribution_loop total_value acc ((token, balance) # items) =
     bind_err (fdiv (value_near token balance) total_value) (\<lambda>r.
       distribution_loop total_value (AList.update token (fmul r (Finite 100)) acc) items)"

definition analyze_portfolio :: "pyfloat dict \<Rightarrow> error + analysis" where
  \<comment> \<open>\<open>ZcashAgent.analyze_portfolio\<close> on the portfolio that \<open>get_portfolio\<close> has read\<close>
  "analyze_portfolio pf =
     (let zec_value_near = fmul (dict_get_default pf ''ZEC'' (Finite 0)) (Finite 10);
          usdc_value_near = fmul (dict_get_default pf ''USDC'' (Finite 0)) (Finite (1 / 4));
          total_near = fadd (dict_get_default pf ''NEAR'' (Finite 0)) (fadd zec_value_near usdc_value_near)
      in bind_err (if fgt total_near (Finite 0) then distribution_loop total_near [] pf else Inr []) (\<lambda>ds.
         bind_err (calculate_privacy_ratio pf) (\<lambda>pr.
           Inr \<lparr>portfolio = pf, total_value_near = total_near, distributions = ds, privacy_ratio = pr\<rparr>)))"

section \<open>Sample inputs\<close>

definition token_diff_quote :: "world \<Rightarrow> account \<Rightarrow> string dict \<Rightarrow> Quote" where
  \<comment> \<open>the quote that \<open>create_shielded_token_diff_quote\<close> builds around a diff map\<close>
  "token_diff_quote w acct d =
     \<lparr>nonce = random_nonce w, signer_id = account_id acct,
      verifying_contract = ''intents.near'', deadline = str_int (time_ms w + 120000),
      intents = [\<lparr>intent = ''token_diff'', diff = d\<rparr>]\<rparr>"

definition scenario_quotes :: "quote list" where
  "scenario_quotes = [[(''amount_out'', ''12000000'')], [(''amount_out'', ''15000000'')]]"

definition sample_account :: account where
  "sample_account =
     \<lparr>account_id = ''alice.near'', signer_sign = (\<lambda>_. Inr ''3yZe7d''), signer_public_key = ''4vJ9JU''\<rparr>"

definition sample_world :: "quote list reply \<Rightarrow> string dict reply \<Rightarrow> world" where
  "sample_world quotes published =
     \<lparr>getQuotes = (\<lambda>_. quotes), publishIntent = (\<lambda>_. published),
      random_nonce = ''q83vEjRWeJCrze8SNFZ4kKvN7xI0VniQq83vEjRWeJA='', time_ms = 1700000000000\<rparr>"

definition sample_request :: IntentRequest where
  "sample_request =
     IntentRequest_init
       (Some [(''assetIn'', ''near''), (''assetOut'', ''nep141:zcash.factory.bridge.near''),
              (''amountIn'', ''1000'')]) None 120000"


section \<open>Lemmas\<close>

subsection \<open>Rounding to a double\<close>

lemma bitlen_pos: "0 < n \<Longrightarrow> 1 \<le> bitlen n"
  using bitlen_eq_zero_iff[of n] bitlen_nonneg[of n] by linarith

lemma bitlen_bounds_rat:
  assumes "0 < n"
  shows "(2::rat) powi (bitlen n - 1) \<le> of_int n" and "of_int n < (2::rat) powi bitlen n"
proof -
  have b: "1 \<le> bitlen n" using bitlen_pos[OF assms] .
  have lo: "2 ^ nat (bitlen n - 1) \<le> n" and hi: "n < 2 ^ nat (bitlen n)"
    using bitlen_bounds[OF assms] by auto
  have "(2::rat) powi (bitlen n - 1) = of_int (2 ^ nat (bitlen n - 1))"
    using b by (simp add: power_int_def)
  also have "\<dots> \<le> of_int n" using lo by (simp only: of_int_le_iff)
  finally show "(2::rat) powi (bitlen n - 1) \<le> of_int n" .
  have "(of_int n :: rat) < of_int (2 ^ nat (bitlen n))" using hi by (simp only: of_int_less_iff)
  also have "\<dots> = (2::rat) powi bitlen n" using b by (simp add: power_int_def)
  finally show "of_int n < (2::rat) powi bitlen n" .
qed

lemma ilog2_bounds:
  assumes "0 < x"
  shows "2 powi ilog2 x \<le> x" and "x < 2 powi (ilog2 x + 1)"
proof -
  obtain n d where nd: "quotient_of x = (n, d)" by force
  have d: "0 < d" using quotient_of_denom_pos[OF nd] .
  have x: "x = of_int n / of_int d" using quotient_of_div[OF nd] .
  have n: "0 < n" using assms d x by (simp add: zero_less_divide_iff)
  define k where "k = bitlen n - bitlen d"
  have xd: "x * of_int d = of_int n" using d x by simp
  have dpos: "(0::rat) < of_int d" using d by simp
  have "2 powi (k - 1) * of_int d \<le> 2 powi (k - 1) * (2::rat) powi bitlen d"
    using bitlen_bounds_rat(2)[OF d] by (simp add: zero_less_power_int)
  also have "\<dots> = 2 powi (bitlen n - 1)"
    by (simp add: k_def flip: power_int_add)
  also have "\<dots> \<le> x * of_int d" using bitlen_bounds_rat(1)[OF n] xd by simp
  finally have lo: "2 powi (k - 1) \<le> x" using dpos by simp
  have "x * of_int d < 2 powi bitlen n" using bitlen_bounds_rat(2)[OF n] xd by simp
  also have "\<dots> = 2 powi (k + 1) * (2::rat) powi (bitlen d - 1)"
    by (simp add: k_def flip: power_int_add)
  also have "\<dots> \<le> 2 powi (k + 1) * of_int d"
    using bitlen_bounds_rat(1)[OF d] by (simp add: zero_less_power_int)
  finally have hi: "x < 2 powi (k + 1)" using dpos by simp
  have il: "ilog2 x = (if 2 powi k \<le> x then k else k - 1)"
    by (simp add: ilog2_def nd k_def Let_def)
  show "2 powi ilog2 x \<le> x" using lo by (simp add: il)
  show "x < 2 powi (ilog2 x + 1)" using hi by (auto simp add: il)
qed

lemma ilog2_eqI:
  assumes "2 powi e \<le> x" and "x < 2 powi (e + 1)"
  shows "ilog2 x = e"
proof -
  have "(0::rat) < 2 powi e" by (simp add: zero_less_power_int)
  then have x: "0 < x" using assms(1) by linarith
  have "(2::rat) powi ilog2 x < 2 powi (e + 1)"
    using ilog2_bounds(1)[OF x] assms(2) by linarith
  then have a: "ilog2 x < e + 1"
    by (metis not_less power_int_increasing one_le_numeral)
  have "(2::rat) powi e < 2 powi (ilog2 x + 1)"
    using ilog2_bounds(2)[OF x] assms(1) by linarith
  then have b: "e < ilog2 x + 1"
    by (metis not_less power_int_increasing one_le_numeral)
  show ?thesis using a b by linarith
qed

lemma round_half_even_err: "\<bar>of_int (round_half_even z) - z\<bar> \<le> 1 / 2"
proof -
  have "of_int \<lfloor>z\<rfloor> \<le> z" "z < of_int \<lfloor>z\<rfloor> + 1" by linarith+
  then show ?thesis
    by (auto simp add: round_half_even_def Let_def abs_le_iff)
qed

lemma round_half_even_nonneg: "0 \<le> z \<Longrightarrow> 0 \<le> round_half_even z"
  by (auto simp add: round_half_even_def Let_def)

lemma quantum_err:
  assumes "x \<noteq> 0"
  shows "2 powi (quantum x - 1) \<le> \<bar>x\<bar> / 2 ^ 53 + 1 / 2 ^ 1075"
proof (cases "- 1074 \<le> ilog2 \<bar>x\<bar> - 52")
  case True
  then have q: "quantum x = ilog2 \<bar>x\<bar> - 52" by (simp add: quantum_def)
  have m53: "(2::rat) powi (- 53) = 1 / 2 ^ 53" by (simp add: power_int_def inverse_eq_divide power_divide)
  have "(2::rat) powi (quantum x - 1) = 2 powi (ilog2 \<bar>x\<bar> + (- 53))" by (simp add: q)
  also have "\<dots> = 2 powi ilog2 \<bar>x\<bar> * 2 powi (- 53)"
    by (rule power_int_add) simp
  also have "\<dots> = 2 powi ilog2 \<bar>x\<bar> / 2 ^ 53"
    by (simp only: m53) simp
  also have "\<dots> \<le> \<bar>x\<bar> / 2 ^ 53"
    using ilog2_bounds(1)[of "\<bar>x\<bar>"] assms by (simp add: divide_right_mono)
  finally show ?thesis by simp
next
  case False
  then have q: "quantum x = - 1074" by (simp add: quantum_def)
  have "(2::rat) powi (quantum x - 1) = 1 / 2 ^ 1075"
    by (simp add: q power_int_def inverse_eq_divide power_divide)
  then show ?thesis by simp
qed

lemma scaled_round_err:
  "\<bar>of_int (round_half_even (x / 2 powi q)) * 2 powi q - x\<bar> \<le> 2 powi (q - 1)"
proof -
  have p: "(0::rat) < 2 powi q" by (simp add: zero_less_power_int)
  have "of_int (round_half_even (x / 2 powi q)) * 2 powi q - x
        = (of_int (round_half_even (x / 2 powi q)) - x / 2 powi q) * 2 powi q"
    using p by (simp add: algebra_simps)
  then have "\<bar>of_int (round_half_even (x / 2 powi q)) * 2 powi q - x\<bar>
        = \<bar>of_int (round_half_even (x / 2 powi q)) - x / 2 powi q\<bar> * 2 powi q"
    using p by (simp add: abs_mult)
  also have "\<dots> \<le> (1 / 2) * 2 powi q"
    using round_half_even_err[of "x / 2 powi q"] p by (intro mult_right_mono) simp_all
  also have "\<dots> = 2 powi (q - 1)"
    by (simp add: power_int_diff)
  finally show ?thesis .
qed

lemma round_double_bound:
  assumes "\<bar>x\<bar> \<le> 2 ^ 1000"
  obtains y where "round_double x = Finite y"
    and "\<bar>y - x\<bar> \<le> \<bar>x\<bar> / 2 ^ 53 + 1 / 2 ^ 1075"
    and "0 \<le> x \<Longrightarrow> 0 \<le> y"
proof (cases "x = 0")
  case True
  show ?thesis by (rule that[of 0]) (simp_all add: True round_double_def)
next
  case False
  define y :: rat where "y = of_int (round_half_even (x / 2 powi quantum x)) * 2 powi quantum x"
  have e: "\<bar>y - x\<bar> \<le> \<bar>x\<bar> / 2 ^ 53 + 1 / 2 ^ 1075"
    unfolding y_def using scaled_round_err[of x "quantum x"] quantum_err[OF False] by linarith
  have "\<bar>y\<bar> \<le> \<bar>x\<bar> + \<bar>y - x\<bar>" by linarith
  also have "\<dots> \<le> \<bar>x\<bar> + (\<bar>x\<bar> / 2 ^ 53 + 1 / 2 ^ 1075)" using e by linarith
  also have "\<dots> \<le> 2 ^ 1000 + (2 ^ 1000 / 2 ^ 53 + 1 / 2 ^ 1075)"
    using assms by (intro add_mono divide_right_mono) simp_all
  also have "\<dots> < 2 powi 1024" by simp
  finally have fin: "\<not> 2 powi 1024 \<le> \<bar>y\<bar>" by simp
  have r: "round_double x = Finite y"
    using False fin by (simp add: round_double_def Let_def y_def)
  have nn: "0 \<le> y" if "0 \<le> x"
  proof -
    have "0 \<le> x / 2 powi quantum x" using that by (simp add: zero_less_power_int)
    then have "0 \<le> round_half_even (x / 2 powi quantum x)" by (rule round_half_even_nonneg)
    then show ?thesis by (simp add: y_def zero_less_power_int)
  qed
  show ?thesis using that[OF r e] nn by blast
qed

lemma round_double_bound_ex:
  assumes "\<bar>x\<bar> \<le> 2 ^ 1000"
  shows "\<exists>y. round_double x = Finite y \<and> \<bar>y - x\<bar> \<le> \<bar>x\<bar> / 2 ^ 53 + 1 / 2 ^ 1075 \<and> (0 \<le> x \<longrightarrow> 0 \<le> y)"
  using round_double_bound[OF assms] by metis

lemma round_double_eval:
  assumes "2 powi e \<le> \<bar>x\<bar>" and "\<bar>x\<bar> < 2 powi (e + 1)"
    and "q = max (e - 52) (- 1074)"
    and "round_half_even (x / 2 powi q) = m"
    and "\<bar>of_int m * 2 powi q\<bar> < (2::rat) powi 1024"
  shows "round_double x = Finite (of_int m * 2 powi q)"
proof -
  have pos: "(0::rat) < 2 powi e" by (simp add: zero_less_power_int)
  have nz: "x \<noteq> 0"
  proof
    assume "x = 0"
    then have "(2::rat) powi e \<le> 0" using assms(1) by simp
    then show False using pos by linarith
  qed
  have "ilog2 \<bar>x\<bar> = e" using assms(1,2) by (rule ilog2_eqI)
  then have "quantum x = q" by (simp add: quantum_def assms(3))
  then show ?thesis using nz assms(4,5) by (simp add: round_double_def Let_def)
qed

lemma round_half_even_of_int [simp]: "round_half_even (of_int k) = k"
  by (simp add: round_half_even_def Let_def)

lemma ilog2_range:
  assumes "1 \<le> x" and "x \<le> 2 ^ 53"
  shows "0 \<le> ilog2 x" and "ilog2 x \<le> 53"
proof -
  have x: "0 < x" using assms(1) by linarith
  have "(2::rat) powi 0 < 2 powi (ilog2 x + 1)"
    using ilog2_bounds(2)[OF x] assms(1) by simp
  then have "0 < ilog2 x + 1"
    by (metis not_less power_int_increasing one_le_numeral)
  then show "0 \<le> ilog2 x" by linarith
  have "(2::rat) powi ilog2 x \<le> 2 powi 53"
    using ilog2_bounds(1)[OF x] assms(2) by simp
  then show "ilog2 x \<le> 53"
    by (metis not_less power_int_strict_increasing one_less_numeral_iff semiring_norm(76))
qed

lemma round_double_exact_int:
  assumes "\<bar>k\<bar> \<le> 2 ^ 53"
  shows "round_double (of_int k) = Finite (of_int k)"
proof (cases "k = 0")
  case True
  then show ?thesis by (simp add: round_double_def)
next
  case False
  define x :: rat where "x = of_int k"
  have ax: "\<bar>x\<bar> = of_int \<bar>k\<bar>" by (simp add: x_def)
  have x1: "1 \<le> \<bar>x\<bar>" using False unfolding ax by (simp only: of_int_1_le_iff)
  have "(of_int \<bar>k\<bar> :: rat) \<le> of_int (2 ^ 53)" using assms by (simp only: of_int_le_iff)
  then have x2: "\<bar>x\<bar> \<le> 2 ^ 53" unfolding ax by simp
  define e where "e = ilog2 \<bar>x\<bar>"
  have e: "0 \<le> e" "e \<le> 53" using ilog2_range[OF x1 x2] by (simp_all add: e_def)
  have q: "quantum x = e - 52" using e by (simp add: quantum_def e_def)
  have "\<exists>j. x / 2 powi (e - 52) = of_int j"
  proof (cases "e = 53")
    case True
    have "2 powi 53 \<le> \<bar>x\<bar>" using ilog2_bounds(1)[of "\<bar>x\<bar>"] x1 True by (simp add: e_def)
    then have "\<bar>x\<bar> = 2 ^ 53" using x2 by simp
    then have "x = 2 ^ 53 \<or> x = - (2 ^ 53)" by linarith
    then have "x / 2 powi (e - 52) = of_int (2 ^ 52) \<or> x / 2 powi (e - 52) = of_int (- (2 ^ 52))"
      by (auto simp add: True)
    then show ?thesis by blast
  next
    case False
    then have le: "e - 52 \<le> 0" using e by linarith
    have "(2::rat) powi (e - 52) = inverse (2 ^ nat (52 - e))"
      using le by (cases "e = 52") (simp_all add: power_int_def power_divide inverse_eq_divide)
    then have "x / 2 powi (e - 52) = of_int (k * 2 ^ nat (52 - e))"
      by (simp add: x_def divide_inverse)
    then show ?thesis by blast
  qed
  then obtain j where j: "x / 2 powi (e - 52) = of_int j" by blast
  have p: "(0::rat) < 2 powi (e - 52)" by (simp add: zero_less_power_int)
  have "round_half_even (x / 2 powi (e - 52)) = j"
    by (simp only: j round_half_even_of_int)
  then have "of_int (round_half_even (x / 2 powi (e - 52))) * 2 powi (e - 52)
             = of_int j * (2::rat) powi (e - 52)"
    by simp
  also have "\<dots> = x / 2 powi (e - 52) * 2 powi (e - 52)" by (simp only: j)
  also have "\<dots> = x" using p by simp
  finally have y: "of_int (round_half_even (x / 2 powi quantum x)) * 2 powi quantum x = x"
    by (simp only: q)
  have "\<bar>x\<bar> < 2 powi 1024" using x2 by simp
  then have "\<not> 2 powi 1024 \<le> \<bar>x\<bar>" by simp
  moreover have "x \<noteq> 0" using x1 by auto
  ultimately have "round_double x = Finite x"
    by (simp add: round_double_def Let_def y)
  then show ?thesis by (simp add: x_def)
qed

lemma round_double_numeral:
  "(numeral n :: int) \<le> 2 ^ 53 \<Longrightarrow> round_double (numeral n) = Finite (numeral n)"
  using round_double_exact_int[of "numeral n"] by simp

lemma round_double_of_nat:
  "n \<le> 2 ^ 53 \<Longrightarrow> round_double (of_nat n) = Finite (of_nat n)"
  using round_double_exact_int[of "int n"] by (simp add: of_nat_le_iff[of n "2 ^ 53", where ?'a = int, simplified])

lemma round_double_0: "round_double 0 = Finite 0"
  by (simp add: round_double_def)

lemma fdiv_Finite:
  "y \<noteq> 0 \<Longrightarrow> fdiv (Finite a) (Finite y) = Inr (round_double (a / y))"
  by simp

lemma floor_rat_numeral: "\<lfloor>(numeral a :: rat) / numeral b\<rfloor> = numeral a div numeral b"
  using floor_divide_of_int_eq[of "numeral a" "numeral b", where ?'a = rat] by simp

lemmas round_half_even_eval = round_half_even_def Let_def floor_rat_numeral

lemma rd_1e24: "round_double 1000000000000000000000000 = Finite 999999999999999983222784"
  by (rule round_double_eval[where e = 79 and q = 27 and m = 7450580596923828, simplified])
     (simp_all add: round_half_even_eval)

lemma rd_half_1e24: "round_double 499999999999999991611392 = Finite 499999999999999991611392"
  by (rule round_double_eval[where e = 78 and q = 26 and m = 7450580596923828, simplified])
     (simp_all add: round_half_even_eval)

lemma rd_5e24: "round_double 4999999999999999916113920 = Finite 4999999999999999379243008"
  by (rule round_double_eval[where e = 82 and q = 30 and m = 4656612873077392, simplified])
     (simp_all add: round_half_even_eval)

lemma rd_5e24': "round_double 4999999999999999379243008 = Finite 4999999999999999379243008"
  by (rule round_double_eval[where e = 82 and q = 30 and m = 4656612873077392, simplified])
     (simp_all add: round_half_even_eval)

lemma rd_5_back:
  "round_double (4999999999999999379243008 / 999999999999999983222784)
     = Finite (5629499534213119 / 1125899906842624)"
  by (rule round_double_eval[where e = 2 and q = "- 50" and m = 5629499534213119, simplified])
     (simp_all add: round_half_even_eval power_int_minus)

lemma rd_2p53_1: "round_double 9007199254740993 = Finite 9007199254740992"
  by (rule round_double_eval[where e = 53 and q = 1 and m = 4503599627370496, simplified])
     (simp_all add: round_half_even_eval)

lemma rd_11th: "round_double (1 / 11) = Finite (3275345183542179 / 36028797018963968)"
  by (rule round_double_eval[where e = "- 4" and q = "- 56" and m = 6550690367084358, simplified])
     (simp_all add: round_half_even_eval power_int_minus)

lemma rd_ratio:
  "round_double (81883629588554475 / 9007199254740992) = Finite (5117726849284655 / 562949953421312)"
  by (rule round_double_eval[where e = 3 and q = "- 49" and m = 5117726849284655, simplified])
     (simp_all add: round_half_even_eval power_int_minus)

lemma rd_half: "round_double (1 / 2) = Finite (1 / 2)"
  by (rule round_double_eval[where e = "- 1" and q = "- 53" and m = 4503599627370496, simplified])
     (simp_all add: round_half_even_eval power_int_minus)

subsection \<open>Decimal strings\<close>

lemma str_nat_eval:
  "str_nat (numeral k) =
     (if (numeral k :: nat) < 10 then [''0123456789'' ! numeral k]
      else str_nat (numeral k div 10) @ [''0123456789'' ! (numeral k mod 10)])"
  "str_nat 0 = ''0''"
  "str_nat (Suc 0) = ''1''"
  by (simp_all add: str_nat.simps[of "numeral k"] str_nat.simps[of 0] str_nat.simps[of "Suc 0"])

lemma digit_char:
  assumes "d < 10"
  shows "is_digit (''0123456789'' ! d)" and "of_char (''0123456789'' ! d) - 48 = d"
    and "''0123456789'' ! d \<noteq> CHR ''-''" and "''0123456789'' ! d \<noteq> CHR ''+''"
proof -
  have "d \<in> {0, 1, 2, 3, 4, 5, 6, 7, 8, 9}" using assms by auto
  then show "is_digit (''0123456789'' ! d)" and "of_char (''0123456789'' ! d) - 48 = d"
    and "''0123456789'' ! d \<noteq> CHR ''-''" and "''0123456789'' ! d \<noteq> CHR ''+''"
    by (auto simp add: is_digit_def)
qed

lemma nat_of_digits_snoc:
  "nat_of_digits acc (cs @ [c]) = 10 * nat_of_digits acc cs + (of_char c - 48)"
  by (induction cs arbitrary: acc) simp_all

lemma str_nat_digits:
  "str_nat n \<noteq> [] \<and> list_all is_digit (str_nat n) \<and> nat_of_digits 0 (str_nat n) = n"
proof (induction n rule: str_nat.induct)
  case (1 n)
  show ?case
  proof (cases "n < 10")
    case True
    then show ?thesis using digit_char(1,2)[of n] by (simp add: str_nat.simps[of n])
  next
    case False
    have m: "n mod 10 < 10" by simp
    show ?thesis
      using 1[OF False] False digit_char(1,2)[OF m]
      by (simp add: str_nat.simps[of n] nat_of_digits_snoc)
  qed
qed

lemma take_digits_all:
  "list_all is_digit cs \<Longrightarrow> take_digits acc cnt cs = (nat_of_digits acc cs, cnt + length cs, [])"
  by (induction acc cnt cs rule: take_digits.induct) simp_all

lemma digit_not_space: "is_digit c \<Longrightarrow> \<not> is_space c"
  by (auto simp add: is_digit_def is_space_def)

lemma strip_digits:
  assumes "s \<noteq> []" and "list_all is_digit s"
  shows "strip s = s"
proof -
  have a: "\<not> is_space (hd s)" using assms by (cases s) (auto simp add: digit_not_space)
  have "is_digit (last s)" using assms by (simp add: list_all_iff)
  then have b: "\<not> is_space (hd (rev s))" using assms(1) by (simp add: hd_rev digit_not_space)
  have 1: "dropWhile is_space s = s" using a assms(1) by (cases s) auto
  have 2: "dropWhile is_space (rev s) = rev s" using b assms(1) by (cases "rev s") auto
  show ?thesis by (simp add: strip_def 1 2)
qed

lemma float_of_str_digits:
  assumes "s \<noteq> []" and "list_all is_digit s"
  shows "float_of_str s = Inr (round_double (of_nat (nat_of_digits 0 s)))"
proof -
  obtain c cs where s: "s = c # cs" using assms(1) by (cases s) auto
  have d: "is_digit c" "list_all is_digit cs" using assms(2) by (simp_all add: s)
  have sg: "split_sign (c # cs) = (False, c # cs)"
    using d(1) by (auto simp add: split_sign_def is_digit_def)
  have m: "\<not> matches_ci (c # cs) ''inf''" "\<not> matches_ci (c # cs) ''infinity''"
    "\<not> matches_ci (c # cs) ''nan''"
    using d(1) by (auto simp add: is_digit_def)
  have dp: "digitpart (c # cs) = Some (nat_of_digits 0 (c # cs), 1 + length cs, [])"
    using d by (simp add: digitpart_def take_digits_all)
  have pf: "point_float (c # cs) = Some (of_nat (nat_of_digits 0 (c # cs)), [])"
    by (simp only: point_float_def dp option.case prod.case list.case)
  have e: "exponent [] = Some 0" by (simp add: exponent_def)
  have st: "strip (c # cs) = c # cs" using strip_digits[OF assms] by (simp add: s)
  show ?thesis
    unfolding s float_of_str_def st sg
    using m by (simp only: pf e prod.case option.case if_False) simp
qed

lemma float_of_str_str_nat: "float_of_str (str_nat n) = Inr (round_double (of_nat n))"
  using float_of_str_digits[of "str_nat n"] str_nat_digits[of n] by simp

lemmas float_of_str_eval = float_of_str_digits is_digit_def round_double_numeral

subsection \<open>Amount codec\<close>

lemmas to_decimals_eval =
  to_decimals_def float_of_int_def bind_err_def round_double_numeral int_of_float_def
  str_int_def str_nat_eval

lemma near_half: "to_decimals (Finite (1 / 2)) 24 = Inr ''499999999999999991611392''"
  by (simp add: to_decimals_eval rd_1e24 rd_half_1e24)

lemma near_five: "to_decimals (Finite 5) 24 = Inr ''4999999999999999379243008''"
  by (simp add: to_decimals_eval rd_1e24 rd_5e24)

lemma amounts_eval:
  "to_decimals (Finite 1) 8 = Inr ''100000000''"
  "to_decimals (Finite 2) 8 = Inr ''200000000''"
  "to_decimals (Finite 30) 6 = Inr ''30000000''"
  by (simp_all add: to_decimals_eval)

lemma float_pow10:
  "float_of_int (10 ^ 6) = Inr (Finite 1000000)"
  "float_of_int (10 ^ 8) = Inr (Finite 100000000)"
  "float_of_int (10 ^ 24) = Inr (Finite 999999999999999983222784)"
  by (simp_all add: float_of_int_def round_double_numeral rd_1e24)

lemma from_decimals_near_five:
  "from_decimals ''4999999999999999379243008'' 24 = Inr (Finite (5629499534213119 / 1125899906842624))"
proof -
  have s: "float_of_str ''4999999999999999379243008'' = Inr (Finite 4999999999999999379243008)"
    by (simp add: float_of_str_digits is_digit_def rd_5e24')
  have "fdiv (Finite 4999999999999999379243008) (Finite 999999999999999983222784)
          = Inr (round_double (4999999999999999379243008 / 999999999999999983222784))"
    by (rule fdiv_Finite) simp
  then have d: "fdiv (Finite 4999999999999999379243008) (Finite 999999999999999983222784)
          = Inr (Finite (5629499534213119 / 1125899906842624))"
    by (simp only: rd_5_back)
  show ?thesis
    by (simp only: from_decimals_def s bind_err_def float_pow10 sum.case d)
qed

lemma ASSET_MAP_decimals:
  "ASSET_MAP symbol = Some a \<Longrightarrow> decimals a = 6 \<or> decimals a = 8 \<or> decimals a = 24"
  by (auto simp add: ASSET_MAP_def split: if_splits)

lemma abs_err_bounds:
  fixes y z u t :: rat
  assumes "\<bar>y - z\<bar> \<le> z * u + t"
  shows "y \<le> z * (1 + u) + t" and "z * (1 - u) - t \<le> y"
proof -
  have a: "z * (1 + u) = z + z * u" by (simp add: distrib_left)
  have b: "z * (1 - u) = z - z * u" by (simp add: right_diff_distrib)
  show "y \<le> z * (1 + u) + t" using assms unfolding a by linarith
  show "z * (1 - u) - t \<le> y" using assms unfolding b by linarith
qed

lemma roundtrip_upper:
  fixes x D T u t p n n' r :: rat
  assumes u: "0 \<le> u" "u \<le> 1 / 4" and t: "0 \<le> t" and x: "0 < x" and D: "1 \<le> D"
    and tT: "4 * t \<le> 1 / T"
    and p: "p \<le> x * D * (1 + u) + t"
    and n: "n \<le> p"
    and n': "n' \<le> n * (1 + u) + t"
    and r: "r \<le> n' / D * (1 + u) + t"
  shows "r - x \<le> 1 / T + 4 * u * x"
proof -
  define c where "c = 1 + u"
  have c: "1 \<le> c" "c \<le> 5 / 4" "0 \<le> c" using u by (simp_all add: c_def)
  have uu: "u * u \<le> u * (1 / 4)" using u by (intro mult_left_mono) simp_all
  have uuu: "u * u * u \<le> u * (1 / 4) * (1 / 4)"
    using u uu by (intro mult_mono) simp_all
  have ccc: "c * c * c \<le> 1 + 4 * u"
  proof -
    have "c * c * c = 1 + 3 * u + 3 * (u * u) + u * u * u" by (simp add: c_def algebra_simps)
    then show ?thesis using uu uuu u by linarith
  qed
  have cc: "c * c \<le> 25 / 16"
  proof -
    have "c * c \<le> (5 / 4) * (5 / 4)" using c by (intro mult_mono) simp_all
    then show ?thesis by simp
  qed
  have "n * c \<le> p * c" using n c(3) by (rule mult_right_mono)
  then have "n' \<le> p * c + t" using n' by (simp add: c_def)
  moreover have "p * c \<le> (x * D * c + t) * c"
    using p c(3) unfolding c_def by (intro mult_right_mono) simp_all
  ultimately have "n' \<le> (x * D * c + t) * c + t" by linarith
  then have n'le: "n' \<le> x * D * (c * c) + (t * c + t)" by (simp add: algebra_simps)
  have Dpos: "0 < D" using D by linarith
  have tc: "0 \<le> t * c + t" using t c(3) by simp
  have "n' / D \<le> (x * D * (c * c) + (t * c + t)) / D"
    using n'le Dpos by (simp add: divide_right_mono)
  also have "\<dots> = x * (c * c) + (t * c + t) / D"
    using Dpos by (simp add: add_divide_distrib)
  also have "\<dots> \<le> x * (c * c) + (t * c + t)"
  proof -
    have "(t * c + t) / D \<le> (t * c + t) / 1"
      using tc D by (intro divide_left_mono) simp_all
    then show ?thesis by simp
  qed
  finally have q: "n' / D \<le> x * (c * c) + (t * c + t)" .
  have "n' / D * c \<le> (x * (c * c) + (t * c + t)) * c"
    using q c(3) by (rule mult_right_mono)
  then have "r \<le> (x * (c * c) + (t * c + t)) * c + t" using r by (simp add: c_def)
  then have r1: "r \<le> x * (c * c * c) + t * (c * c + c + 1)" by (simp add: algebra_simps)
  have "x * (c * c * c) \<le> x * (1 + 4 * u)" using ccc x by (intro mult_left_mono) simp_all
  moreover have "t * (c * c + c + 1) \<le> t * 4"
    using cc c(2) t by (intro mult_left_mono) simp_all
  ultimately have "r \<le> x * (1 + 4 * u) + t * 4" using r1 by linarith
  then show ?thesis using tT by (simp add: algebra_simps)
qed

lemma roundtrip_lower:
  fixes x D T u t p n n' r :: rat
  assumes u: "0 \<le> u" "u \<le> 1 / 4" and t: "0 \<le> t" and x: "0 < x" and D: "1 \<le> D"
    and T: "0 < T" "T * (1 - u) \<le> D"
    and tT: "3 * t \<le> u / T"
    and p: "x * D * (1 - u) - t \<le> p"
    and n: "p - 1 \<le> n"
    and n': "n * (1 - u) - t \<le> n'"
    and r: "n' / D * (1 - u) - t \<le> r"
  shows "x - r \<le> 1 / T + 4 * u * x"
proof -
  define e where "e = 1 - u"
  have e: "0 \<le> e" "e \<le> 1" "0 < e" using u by (simp_all add: e_def)
  have Dpos: "0 < D" using D by linarith
  have eee: "1 - 3 * u \<le> e * e * e"
  proof -
    have "e * e * e = 1 - 3 * u + 3 * (u * u) - u * u * u" by (simp add: e_def algebra_simps)
    moreover have "u * u * u \<le> u * u * 1"
      using u by (intro mult_left_mono) simp_all
    moreover have "0 \<le> u * u" using u by simp
    ultimately show ?thesis by linarith
  qed
  have "(p - 1) * e \<le> n * e" using n e(1) by (rule mult_right_mono)
  then have "(p - 1) * e - t \<le> n'" using n' by (simp add: e_def)
  moreover have "(x * D * e - t - 1) * e \<le> (p - 1) * e"
    using p e(1) unfolding e_def by (intro mult_right_mono) simp_all
  ultimately have "(x * D * e - t - 1) * e - t \<le> n'" by linarith
  then have n'ge: "x * D * (e * e) - (t * e + e + t) \<le> n'" by (simp add: algebra_simps)
  have "(x * D * (e * e) - (t * e + e + t)) / D \<le> n' / D"
    using n'ge Dpos by (simp add: divide_right_mono)
  moreover have "(x * D * (e * e) - (t * e + e + t)) / D = x * (e * e) - (t * e + e + t) / D"
    using Dpos by (simp add: diff_divide_distrib)
  ultimately have q: "x * (e * e) - (t * e + e + t) / D \<le> n' / D" by simp
  have "(x * (e * e) - (t * e + e + t) / D) * e \<le> n' / D * e"
    using q e(1) by (rule mult_right_mono)
  then have "(x * (e * e) - (t * e + e + t) / D) * e - t \<le> r" using r by (simp add: e_def)
  then have r1: "x * (e * e * e) - (t * e + e + t) * e / D - t \<le> r"
    by (simp add: algebra_simps)
  have s1: "(t * e + e + t) * e / D = e * e / D + (t * e + t) * e / D"
    by (simp add: algebra_simps add_divide_distrib)
  have s2: "e * e / D \<le> e / T"
  proof -
    have "e * (T * e) \<le> e * D" using T(2) e(1) unfolding e_def by (intro mult_left_mono) simp_all
    then have "e * e * T \<le> e * D" by (simp add: algebra_simps)
    then show ?thesis using Dpos T(1) by (simp add: field_simps)
  qed
  have s3: "(t * e + t) * e / D \<le> 2 * t"
  proof -
    have a: "0 \<le> (t * e + t) * e" using t e(1) by simp
    have "t * e \<le> t * 1" using t e(2) by (intro mult_left_mono) simp_all
    then have "(t * e + t) * e \<le> (2 * t) * 1"
      using e t by (intro mult_mono) simp_all
    then have b: "(t * e + t) * e \<le> 2 * t" by simp
    have "(t * e + t) * e / D \<le> (t * e + t) * e / 1"
      using a D by (intro divide_left_mono) simp_all
    then show ?thesis using b by simp
  qed
  have s4: "e / T = 1 / T - u / T" by (simp add: e_def diff_divide_distrib)
  have "x * (1 - 3 * u) \<le> x * (e * e * e)" using eee x by (intro mult_left_mono) simp_all
  then have "x - 3 * u * x - (1 / T - u / T + 2 * t) - t \<le> r"
    using r1 s1 s2 s3 s4 by (simp add: algebra_simps)
  moreover have "0 \<le> u * x" using u x by simp
  ultimately show ?thesis using tT by (simp add: algebra_simps)
qed

lemma roundtrip_core:
  fixes x D T :: rat
  assumes x: "0 < x" "x \<le> 10 ^ 100"
    and D: "float_of_int (10 ^ d) = Inr (Finite D)" "1 \<le> D" "D \<le> 10 ^ 24"
    and T: "T = 10 ^ d" "T \<le> 10 ^ 24" "T * (1 - 1 / 2 ^ 53) \<le> D"
  shows "\<exists>r. roundtrip (Finite x) d = Inr (Finite r) \<and> \<bar>r - x\<bar> \<le> 1 / T + x / 2 ^ 51"
proof -
  define u :: rat where "u = 1 / 2 ^ 53"
  define t :: rat where "t = 1 / 2 ^ 1075"
  have u: "0 \<le> u" "u \<le> 1 / 4" "u \<le> 1" by (simp_all add: u_def)
  have t: "0 \<le> t" "t \<le> 1" by (simp_all add: t_def)
  have Tpos: "0 < T" by (simp add: T(1))
  have Dpos: "0 < D" using D(2) by linarith
  have iT: "1 / 10 ^ 24 \<le> 1 / T" using Tpos T(2) by (intro divide_left_mono) simp_all
  have tT4: "4 * t \<le> 1 / T"
  proof -
    have "4 * t \<le> 1 / 10 ^ 24" by (simp add: t_def)
    then show ?thesis using iT by linarith
  qed
  have tT3: "3 * t \<le> u / T"
  proof -
    have "3 * t \<le> u * (1 / 10 ^ 24)" by (simp add: t_def u_def)
    also have "\<dots> \<le> u * (1 / T)" using iT u(1) by (intro mult_left_mono) simp_all
    finally show ?thesis by simp
  qed
  \<comment> \<open>the product\<close>
  have xD: "0 < x * D" using x(1) Dpos by simp
  have "x * D \<le> 10 ^ 100 * 10 ^ 24" using x D(3) Dpos by (intro mult_mono) simp_all
  then have xD_le: "x * D \<le> 10 ^ 124" by simp
  then have "\<bar>x * D\<bar> \<le> 2 ^ 1000" using xD by simp
  then obtain p where p: "round_double (x * D) = Finite p"
    and pe: "\<bar>p - x * D\<bar> \<le> \<bar>x * D\<bar> / 2 ^ 53 + 1 / 2 ^ 1075" and pp: "0 \<le> x * D \<longrightarrow> 0 \<le> p"
    using round_double_bound_ex by blast
  have p0: "0 \<le> p" using pp xD by simp
  have pe': "\<bar>p - x * D\<bar> \<le> x * D * u + t" using pe xD by (simp add: u_def t_def)
  have "x * D * u \<le> x * D * 1" using xD u by (intro mult_left_mono) simp_all
  then have p_le: "p \<le> 2 * 10 ^ 124 + 1" using pe' xD_le t by linarith
  \<comment> \<open>the integer\<close>
  define n where "n = \<lfloor>p\<rfloor>"
  have n0: "0 \<le> n" using p0 by (simp add: n_def)
  have np: "of_int n \<le> p" "p - 1 \<le> of_int n" unfolding n_def by linarith+
  have nn: "(0::rat) \<le> of_int n" using n0 by simp
  have td: "to_decimals (Finite x) d = Inr (str_nat (nat n))"
    using p0 n0 by (simp add: to_decimals_def D(1) bind_err_def p int_of_float_def str_int_def n_def)
  have fs: "float_of_str (str_nat (nat n)) = Inr (round_double (of_int n))"
    using n0 by (simp add: float_of_str_str_nat)
  have "\<bar>of_int n :: rat\<bar> \<le> 2 ^ 1000" using nn np(1) p_le by simp
  then obtain n' where n': "round_double (of_int n) = Finite n'"
    and n'e: "\<bar>n' - of_int n\<bar> \<le> \<bar>of_int n\<bar> / 2 ^ 53 + 1 / 2 ^ 1075"
    and n'p: "0 \<le> (of_int n :: rat) \<longrightarrow> 0 \<le> n'"
    using round_double_bound_ex by blast
  have n'0: "0 \<le> n'" using n'p nn by simp
  have n'e': "\<bar>n' - of_int n\<bar> \<le> of_int n * u + t" using n'e nn by (simp add: u_def t_def)
  have "of_int n * u \<le> of_int n * 1" using nn u by (intro mult_left_mono) simp_all
  then have n'_le: "n' \<le> 4 * 10 ^ 124 + 3" using n'e' np(1) p_le t by linarith
  \<comment> \<open>the quotient\<close>
  have q0: "0 \<le> n' / D" using n'0 Dpos by simp
  have "n' / D \<le> n' / 1" using n'0 D(2) by (intro divide_left_mono) simp_all
  then have "\<bar>n' / D\<bar> \<le> 2 ^ 1000" using q0 n'_le by simp
  then obtain r where r: "round_double (n' / D) = Finite r"
    and re: "\<bar>r - n' / D\<bar> \<le> \<bar>n' / D\<bar> / 2 ^ 53 + 1 / 2 ^ 1075"
    using round_double_bound_ex by blast
  have re': "\<bar>r - n' / D\<bar> \<le> n' / D * u + t" using re q0 by (simp add: u_def t_def)
  have fd: "from_decimals (str_nat (nat n)) d = Inr (Finite r)"
    using Dpos by (simp add: from_decimals_def fs bind_err_def n' D(1) r)
  have rt: "roundtrip (Finite x) d = Inr (Finite r)"
    by (simp add: roundtrip_def td bind_err_def fd)
  have up: "r - x \<le> 1 / T + 4 * u * x"
  proof (rule roundtrip_upper[OF u(1,2) t(1) x(1) D(2) tT4])
    show "p \<le> x * D * (1 + u) + t" using pe' by (rule abs_err_bounds)
    show "of_int n \<le> p" by (rule np(1))
    show "n' \<le> of_int n * (1 + u) + t" using n'e' by (rule abs_err_bounds)
    show "r \<le> n' / D * (1 + u) + t" using re' by (rule abs_err_bounds)
  qed
  have TD: "T * (1 - u) \<le> D" using T(3) by (simp add: u_def)
  have lo: "x - r \<le> 1 / T + 4 * u * x"
  proof (rule roundtrip_lower[OF u(1,2) t(1) x(1) D(2) Tpos TD tT3])
    show "x * D * (1 - u) - t \<le> p" using pe' by (rule abs_err_bounds)
    show "p - 1 \<le> of_int n" by (rule np(2))
    show "of_int n * (1 - u) - t \<le> n'" using n'e' by (rule abs_err_bounds)
    show "n' / D * (1 - u) - t \<le> r" using re' by (rule abs_err_bounds)
  qed
  have ux: "4 * u * x = x / 2 ^ 51" by (simp add: u_def)
  have "\<bar>r - x\<bar> \<le> 1 / T + 4 * u * x" using up lo by (simp only: abs_le_iff) simp
  then have "\<bar>r - x\<bar> \<le> 1 / T + x / 2 ^ 51" by (simp only: ux)
  then show ?thesis using rt by blast
qed

subsection \<open>Asset registry\<close>

lemma asset_eval:
  "get_asset_id ''NEAR'' = Inr ''near''"
  "get_asset_id ''ZEC'' = Inr ''nep141:zcash.factory.bridge.near''"
  "get_asset_id ''USDC'' = Inr ''nep141:a0b86991c6218b36c1d19d4a2e9eb0ce3606eb48.factory.bridge.near''"
  "asset_of ''NEAR'' = Inr \<lparr>token_id = ''wrap.near'', omft = None, decimals = 24, shielded = None\<rparr>"
  "asset_of ''ZEC'' = Inr \<lparr>token_id = ''zcash.factory.bridge.near'',
                   omft = Some ''zcash-token.omft.near'', decimals = 8, shielded = Some True\<rparr>"
  "asset_of ''USDC'' = Inr \<lparr>token_id = ''a0b86991c6218b36c1d19d4a2e9eb0ce3606eb48.factory.bridge.near'',
                    omft = Some ''eth-0xa0b86991c6218b36c1d19d4a2e9eb0ce3606eb48.omft.near'',
                    decimals = 6, shielded = None\<rparr>"
  by (simp_all add: get_asset_id_def asset_of_def ASSET_MAP_def bind_err_def)

lemma privacy_capable_iff: "privacy_capable token = (token = ''ZEC'')"
  by (simp add: privacy_capable_def ASSET_MAP_def)

lemma get_asset_id_inj:
  "get_asset_id t1 = Inr i \<Longrightarrow> get_asset_id t2 = Inr i \<Longrightarrow> t1 = t2"
  by (auto simp add: get_asset_id_def asset_of_def ASSET_MAP_def bind_err_def split: if_splits)

subsection \<open>Relay calls\<close>

lemma post_result_cases:
  "post_result (Raised m) = Inl (RequestException m)"
  "400 \<le> status \<Longrightarrow> status < 600 \<Longrightarrow> post_result (Response status b) = Inl (HTTPError status)"
  "\<not> (400 \<le> status \<and> status < 600) \<Longrightarrow> post_result (Response status NotJson) = Inl JSONDecodeError"
  "\<not> (400 \<le> status \<and> status < 600) \<Longrightarrow> post_result (Response status NoResult) = Inl (KeyError ''result'')"
  "\<not> (400 \<le> status \<and> status < 600) \<Longrightarrow> post_result (Response status (Result x)) = Inr x"
  by (simp_all add: post_result_def raise_for_status_def)


lemma fetch_options_events: "list_all is_GetQuotes (snd (fetch_options w req))"
  by (simp add: fetch_options_def fetch_options_try_def split: sum.splits prod.splits)

subsection \<open>Quote selector\<close>

lemma select_scenario: "select_best_option scenario_quotes = Inr [(''amount_out'', ''15000000'')]"
  by (simp add: select_best_option_def scenario_quotes_def py_max_def amount_out_key_def dict_get_def
        bind_err_def float_of_str_eval)

subsection \<open>Commitment builder\<close>

lemma create_shielded_Inr:
  assumes "create_shielded_token_diff_quote w acct token_in amount_in token_out amount_out so = (Inr c, evs)"
  shows "\<exists>id_in a_in s_in id_out a_out s_out.
           get_asset_id token_in = Inr id_in \<and> asset_of token_in = Inr a_in \<and>
           to_decimals amount_in (decimals a_in) = Inr s_in \<and>
           get_asset_id token_out = Inr id_out \<and> asset_of token_out = Inr a_out \<and>
           to_decimals amount_out (decimals a_out) = Inr s_out \<and>
           intents (payload c) =
             [\<lparr>intent = ''token_diff'',
               diff = AList.update id_out s_out (AList.update id_in (''-'' @ s_in) [])\<rparr>] \<and>
           evs = [Sign (payload c)]"
  using assms
  by (auto simp add: create_shielded_token_diff_quote_def bind_err_def Let_def split: sum.splits)

lemma create_shielded_default_params:
  assumes "create_shielded_token_diff_quote w acct token_in amount_in token_out amount_out None = (Inr c, evs)"
  shows "shield_params c =
           (if token_in = ''ZEC'' \<or> token_out = ''ZEC''
            then Some \<lparr>sp_shielded = True, sp_memo = None, sp_viewing_key = None\<rparr> else None)"
  using assms
  by (auto simp add: create_shielded_token_diff_quote_def bind_err_def Let_def split: sum.splits)

lemma create_shielded_events:
  assumes "get_asset_id token_in = Inr id_in" and "asset_of token_in = Inr a_in"
    and "to_decimals amount_in (decimals a_in) = Inr s_in"
    and "get_asset_id token_out = Inr id_out" and "asset_of token_out = Inr a_out"
    and "to_decimals amount_out (decimals a_out) = Inr s_out"
  shows "snd (create_shielded_token_diff_quote w acct token_in amount_in token_out amount_out so)
           = [Sign (token_diff_quote w acct
                      (AList.update id_out s_out (AList.update id_in (''-'' @ s_in) [])))]"
  by (simp add: create_shielded_token_diff_quote_def token_diff_quote_def bind_err_def assms Let_def
        split: sum.splits)

lemma create_shielded_eval:
  assumes "get_asset_id token_in = Inr id_in" and "asset_of token_in = Inr a_in"
    and "to_decimals amount_in (decimals a_in) = Inr s_in"
    and "get_asset_id token_out = Inr id_out" and "asset_of token_out = Inr a_out"
    and "to_decimals amount_out (decimals a_out) = Inr s_out"
    and "d = AList.update id_out s_out (AList.update id_in (''-'' @ s_in) [])"
    and "signer_sign acct (token_diff_quote w acct d) = Inr sig"
  shows "create_shielded_token_diff_quote w acct token_in amount_in token_out amount_out None
         = (Inr \<lparr>standard = ''raw_ed25519'', payload = token_diff_quote w acct d,
                 signature = ''ed25519:'' @ sig,
                 public_key = ''ed25519:'' @ signer_public_key acct,
                 shield_params =
                   (if token_in = ''ZEC'' \<or> token_out = ''ZEC''
                    then Some \<lparr>sp_shielded = True, sp_memo = None, sp_viewing_key = None\<rparr>
                    else None)\<rparr>,
            [Sign (token_diff_quote w acct d)])"
  using assms(8) unfolding assms(7)
  by (auto simp add: create_shielded_token_diff_quote_def token_diff_quote_def bind_err_def
        assms(1-6) Let_def)

lemma sample_signed:
  "signer_sign sample_account q = Inr ''3yZe7d''" "signer_public_key sample_account = ''4vJ9JU''"
  by (simp_all add: sample_account_def)

lemma sample_zec_usdc:
  "create_shielded_token_diff_quote (sample_world (Raised ''unused'') (Raised ''unused'')) sample_account
      ''ZEC'' (Finite 1) ''USDC'' (Finite 30) None
   = (Inr \<lparr>standard = ''raw_ed25519'',
           payload = token_diff_quote (sample_world (Raised ''unused'') (Raised ''unused'')) sample_account
                       [(''nep141:zcash.factory.bridge.near'', ''-100000000''),
                        (''nep141:a0b86991c6218b36c1d19d4a2e9eb0ce3606eb48.factory.bridge.near'',
                         ''30000000'')],
           signature = ''ed25519:3yZe7d'', public_key = ''ed25519:4vJ9JU'',
           shield_params = Some \<lparr>sp_shielded = True, sp_memo = None, sp_viewing_key = None\<rparr>\<rparr>,
      [Sign (token_diff_quote (sample_world (Raised ''unused'') (Raised ''unused'')) sample_account
                       [(''nep141:zcash.factory.bridge.near'', ''-100000000''),
                        (''nep141:a0b86991c6218b36c1d19d4a2e9eb0ce3606eb48.factory.bridge.near'',
                         ''30000000'')])])"
  using create_shielded_eval[OF asset_eval(2) asset_eval(5) _ asset_eval(3) asset_eval(6) _ refl
          sample_signed(1), of "Finite 1" "''100000000''" "Finite 30" "''30000000''"
          "sample_world (Raised ''unused'') (Raised ''unused'')"]
  by (simp add: amounts_eval sample_signed)

lemma sample_usdc_near:
  "create_shielded_token_diff_quote (sample_world (Raised ''unused'') (Raised ''unused'')) sample_account
      ''USDC'' (Finite 30) ''NEAR'' (Finite (1 / 2)) None
   = (Inr \<lparr>standard = ''raw_ed25519'',
           payload = token_diff_quote (sample_world (Raised ''unused'') (Raised ''unused'')) sample_account
                       [(''nep141:a0b86991c6218b36c1d19d4a2e9eb0ce3606eb48.factory.bridge.near'',
                         ''-30000000''),
                        (''near'', ''499999999999999991611392'')],
           signature = ''ed25519:3yZe7d'', public_key = ''ed25519:4vJ9JU'',
           shield_params = None\<rparr>,
      [Sign (token_diff_quote (sample_world (Raised ''unused'') (Raised ''unused'')) sample_account
                       [(''nep141:a0b86991c6218b36c1d19d4a2e9eb0ce3606eb48.factory.bridge.near'',
                         ''-30000000''),
                        (''near'', ''499999999999999991611392'')])])"
  using create_shielded_eval[OF asset_eval(3) asset_eval(6) _ asset_eval(1) asset_eval(4) _ refl
          sample_signed(1), of "Finite 30" "''30000000''" "Finite (1 / 2)" "''499999999999999991611392''"
          "sample_world (Raised ''unused'') (Raised ''unused'')"]
  by (simp add: amounts_eval near_half sample_signed)

lemma sample_zec_zec:
  "create_shielded_token_diff_quote (sample_world (Raised ''unused'') (Raised ''unused'')) sample_account
      ''ZEC'' (Finite 1) ''ZEC'' (Finite 2) None
   = (Inr \<lparr>standard = ''raw_ed25519'',
           payload = token_diff_quote (sample_world (Raised ''unused'') (Raised ''unused'')) sample_account
                       [(''nep141:zcash.factory.bridge.near'', ''200000000'')],
           signature = ''ed25519:3yZe7d'', public_key = ''ed25519:4vJ9JU'',
           shield_params = Some \<lparr>sp_shielded = True, sp_memo = None, sp_viewing_key = None\<rparr>\<rparr>,
      [Sign (token_diff_quote (sample_world (Raised ''unused'') (Raised ''unused'')) sample_account
                       [(''nep141:zcash.factory.bridge.near'', ''200000000'')])])"
  using create_shielded_eval[OF asset_eval(2) asset_eval(5) _ asset_eval(2) asset_eval(5) _ refl
          sample_signed(1), of "Finite 1" "''100000000''" "Finite 2" "''200000000''"
          "sample_world (Raised ''unused'') (Raised ''unused'')"]
  by (simp add: amounts_eval sample_signed)

subsection \<open>Orchestrator\<close>

lemma zec_request:
  "set_asset_in IntentRequest_new ''ZEC'' (Finite 1)
     = (None, \<lparr>request = [(''assetIn'', ''nep141:zcash.factory.bridge.near''), (''amountIn'', ''100000000'')],
               thread = None, min_deadline_ms = 120000\<rparr>)"
  by (simp add: set_asset_in_def IntentRequest_new_def IntentRequest_init_def ASSET_MAP_def
        get_asset_id_def asset_of_def to_decimals_eval Let_def)

lemma near_request:
  "set_asset_in IntentRequest_new ''NEAR'' (Finite (1 / 2))
     = (None, \<lparr>request = [(''assetIn'', ''near''), (''amountIn'', ''499999999999999991611392'')],
               thread = None, min_deadline_ms = 120000\<rparr>)"
  by (simp add: set_asset_in_def IntentRequest_new_def IntentRequest_init_def ASSET_MAP_def
        get_asset_id_def near_half)

lemma zec_out:
  "set_asset_out \<lparr>request = [(''assetIn'', ''near''), (''amountIn'', ''499999999999999991611392'')],
               thread = None, min_deadline_ms = 120000\<rparr> ''ZEC'' None
     = (None, \<lparr>request = [(''assetIn'', ''near''), (''amountIn'', ''499999999999999991611392''),
                          (''assetOut'', ''nep141:zcash.factory.bridge.near'')],
               thread = None, min_deadline_ms = 120000\<rparr>)"
  by (simp add: set_asset_out_def ASSET_MAP_def get_asset_id_def asset_of_def bind_err_def)

lemma signed_diffs_append: "signed_diffs (xs @ ys) = signed_diffs xs @ signed_diffs ys"
  by (induction xs rule: signed_diffs.induct) simp_all

lemma signed_diffs_GetQuotes: "list_all is_GetQuotes evs \<Longrightarrow> signed_diffs evs = []"
  by (induction evs rule: signed_diffs.induct) simp_all

lemma signed_diffs_publish: "publish_shielded_intent w c = (r, evs) \<Longrightarrow> signed_diffs evs = []"
  by (auto simp add: publish_shielded_intent_def split: sum.splits)

lemma intent_swap_zec_signed:
  assumes "set_asset_in IntentRequest_new token_in amount_in = (None, r1)"
    and "set_asset_out r1 token_out None = (None, req)"
    and "fst (fetch_options w req) = Inr options" and "options \<noteq> []"
    and "select_best_option options = Inr best_option"
    and "amount_out_key best_option = Inr amount_out"
  shows "\<exists>so. signed_diffs (snd (intent_swap_zec w acct token_in amount_in token_out privacy_level))
           = signed_diffs (snd (create_shielded_token_diff_quote w acct token_in amount_in
                                  token_out amount_out so))"
proof -
  obtain evs where f: "fetch_options w req = (Inr options, evs)"
    using assms(3) by (cases "fetch_options w req") simp
  have g: "signed_diffs evs = []"
    using fetch_options_events[of w req] by (simp add: f signed_diffs_GetQuotes)
  define so where "so = Some (if privacy_level = ''shielded'' \<and> (token_in = ''ZEC'' \<or> token_out = ''ZEC'')
                 then \<lparr>enabled = True,
                       memo = Some (''Swap '' @ token_in @ '' to '' @ token_out),
                       viewing_key = None\<rparr>
                 else \<lparr>enabled = False, memo = None, viewing_key = None\<rparr>)"
  obtain r evs2 where c: "create_shielded_token_diff_quote w acct token_in amount_in
                                  token_out amount_out so = (r, evs2)"
    by (cases "create_shielded_token_diff_quote w acct token_in amount_in
                                  token_out amount_out so") simp
  have "signed_diffs (snd (intent_swap_zec w acct token_in amount_in token_out privacy_level))
           = signed_diffs evs2"
    using c unfolding so_def
    by (cases r)
       (auto simp add: intent_swap_zec_def assms(1,2,4,5,6) f g Let_def signed_diffs_append
          split: prod.splits dest: signed_diffs_publish)
  then show ?thesis using c by (intro exI[of _ so]) simp
qed

lemma scenario_signed:
  "signed_diffs (snd (intent_swap_zec (w\<lparr>getQuotes := \<lambda>_. Response 200 (Result scenario_quotes)\<rparr>) acct
                        ''NEAR'' (Finite (1 / 2)) ''ZEC'' privacy_level))
   = [[(''near'', ''-499999999999999991611392''),
       (''nep141:zcash.factory.bridge.near'', ''1500000000000000'')]]"
proof -
  let ?w = "w\<lparr>getQuotes := \<lambda>_. Response 200 (Result scenario_quotes)\<rparr>"
  let ?req = "\<lparr>request = [(''assetIn'', ''near''), (''amountIn'', ''499999999999999991611392''),
                          (''assetOut'', ''nep141:zcash.factory.bridge.near'')],
               thread = None, min_deadline_ms = 120000\<rparr>"
  have f: "fst (fetch_options ?w ?req) = Inr scenario_quotes"
    by (simp add: fetch_options_def fetch_options_try_def serialize_def dict_get_def bind_err_def
          post_result_cases)
  have ne: "scenario_quotes \<noteq> []" by (simp add: scenario_quotes_def)
  have k: "amount_out_key [(''amount_out'', ''15000000'')] = Inr (Finite 15000000)"
    by (simp add: amount_out_key_def dict_get_def bind_err_def float_of_str_eval)
  have a1: "get_asset_id ''NEAR'' = Inr ''near''" by (simp add: get_asset_id_def)
  have a2: "asset_of ''NEAR'' = Inr \<lparr>token_id = ''wrap.near'', omft = None, decimals = 24, shielded = None\<rparr>"
    by (simp add: asset_of_def ASSET_MAP_def)
  have a3: "get_asset_id ''ZEC'' = Inr ''nep141:zcash.factory.bridge.near''"
    by (simp add: get_asset_id_def asset_of_def ASSET_MAP_def bind_err_def)
  have a4: "asset_of ''ZEC'' = Inr \<lparr>token_id = ''zcash.factory.bridge.near'',
                   omft = Some ''zcash-token.omft.near'', decimals = 8, shielded = Some True\<rparr>"
    by (simp add: asset_of_def ASSET_MAP_def)
  have o: "to_decimals (Finite 15000000) 8 = Inr ''1500000000000000''"
    by (simp add: to_decimals_eval)
  have ev: "snd (create_shielded_token_diff_quote ?w acct ''NEAR'' (Finite (1 / 2)) ''ZEC''
                   (Finite 15000000) so)
        = [Sign (token_diff_quote ?w acct
             [(''near'', ''-499999999999999991611392''),
              (''nep141:zcash.factory.bridge.near'', ''1500000000000000'')])]" for so
    using create_shielded_events[OF a1 a2 _ a3 a4, of "Finite (1 / 2)" "''499999999999999991611392''"
            "Finite 15000000" "''1500000000000000''" ?w acct so]
    by (simp add: near_half o)
  show ?thesis
    using intent_swap_zec_signed[OF near_request zec_out f ne select_scenario k, of acct privacy_level]
    by (auto simp add: ev token_diff_quote_def)
qed

subsection \<open>Request builder\<close>

lemma set_asset_in_keys:
  "map_of (request (snd (set_asset_in self asset_name amount))) ''assetOut''
     = map_of (request self) ''assetOut''"
  by (simp add: set_asset_in_def update_conv' Let_def split: option.splits sum.splits)

lemma set_asset_out_keys:
  "map_of (request (snd (set_asset_out self asset_name amount))) ''assetIn''
     = map_of (request self) ''assetIn''"
  by (simp add: set_asset_out_def update_conv' Let_def split: option.splits sum.splits)

lemma run_calls_assetIn:
  "list_all (\<lambda>c. \<not> is_SetAssetIn c) calls \<Longrightarrow>
   map_of (request (run_calls self calls)) ''assetIn'' = map_of (request self) ''assetIn''"
proof (induction calls arbitrary: self)
  case Nil
  show ?case by (simp add: run_calls_def)
next
  case (Cons c calls)
  then obtain asset_name amount where c: "c = SetAssetOut asset_name amount"
    by (cases c) simp_all
  have "map_of (request (run_calls (run_call self c) calls)) ''assetIn''
          = map_of (request (run_call self c)) ''assetIn''"
    using Cons by simp
  then show ?case by (simp add: run_calls_def c set_asset_out_keys)
qed

lemma run_calls_assetOut:
  "list_all (\<lambda>c. \<not> is_SetAssetOut c) calls \<Longrightarrow>
   map_of (request (run_calls self calls)) ''assetOut'' = map_of (request self) ''assetOut''"
proof (induction calls arbitrary: self)
  case Nil
  show ?case by (simp add: run_calls_def)
next
  case (Cons c calls)
  then obtain asset_name amount where c: "c = SetAssetIn asset_name amount"
    by (cases c) simp_all
  have "map_of (request (run_calls (run_call self c) calls)) ''assetOut''
          = map_of (request (run_call self c)) ''assetOut''"
    using Cons by simp
  then show ?case by (simp add: run_calls_def c set_asset_in_keys)
qed

lemma serialize_KeyError:
  "map_of (request self) ''assetIn'' = None \<Longrightarrow> serialize self = Inl (KeyError ''assetIn'')"
  "map_of (request self) ''assetOut'' = None \<Longrightarrow>
     serialize self = Inl (KeyError ''assetIn'') \<or> serialize self = Inl (KeyError ''assetOut'')"
  by (simp_all add: serialize_def dict_get_def bind_err_def split: option.splits)

subsection \<open>Portfolio view\<close>

lemma privacy_ratio_eval:
  "calculate_privacy_ratio [(''USDC'', Finite 0), (''NEAR'', Finite 10), (''ZEC'', Finite 1)]
     = Inr (Finite (5117726849284655 / 562949953421312))"
proof -
  have s: "sum_values [(''USDC'', Finite 0), (''NEAR'', Finite 10), (''ZEC'', Finite 1)] = Finite 11"
    by (simp add: sum_values_def round_double_numeral round_double_0)
  have d: "fdiv (Finite 1) (Finite 11) = Inr (Finite (3275345183542179 / 36028797018963968))"
    by (simp add: rd_11th)
  have "fmul (Finite (3275345183542179 / 36028797018963968)) (Finite 100)
          = round_double (81883629588554475 / 9007199254740992)"
    by simp
  then have m: "fmul (Finite (3275345183542179 / 36028797018963968)) (Finite 100)
          = Finite (5117726849284655 / 562949953421312)"
    by (simp only: rd_ratio)
  show ?thesis
    unfolding calculate_privacy_ratio_def s Let_def
    by (simp add: dict_get_default_def d bind_err_def m del: fmul.simps fdiv.simps)
qed

section \<open>The claims\<close>

subsection \<open>C1: the end-to-end swap of 0.5 NEAR to ZEC\<close>

text \<open>
  C1. The relay answers the quote request with \<open>scenario_quotes\<close>, the quotes 12000000
  and 15000000, and the selector picks the second one. The claim expects the diff handed
  to the signer to be the near entry -500000000000000000000000 and the ZEC entry 15000000,
  the quote's on-chain amount unchanged. The code does not produce it: whatever the
  signer, the clock, the nonce, the publish reply and the privacy level are,
  \<open>intent_swap_zec\<close> hands the signer exactly one token-diff intent whose ZEC entry is
  1500000000000000, the amount of the selected quote multiplied by \<open>10 ^ 8\<close> once more,
  because \<open>float(best_option['amount_out'])\<close> is passed to the builder as an amount in
  whole tokens. The near entry is -499999999999999991611392: the input amount 0.5 is
  multiplied by the double nearest to \<open>10 ^ 24\<close>, which is 999999999999999983222784.
\<close>

theorem scenario_A_output_rescaled:
  "select_best_option scenario_quotes = Inr [(''amount_out'', ''15000000'')] \<and>
   signed_diffs
     (snd (intent_swap_zec (w\<lparr>getQuotes := \<lambda>_. Response 200 (Result scenario_quotes)\<rparr>) acct
             ''NEAR'' (Finite (1 / 2)) ''ZEC'' privacy_level))
     = [[(''near'', ''-499999999999999991611392''),
         (''nep141:zcash.factory.bridge.near'', ''1500000000000000'')]]"
  by (simp only: select_scenario scenario_signed simp_thms)

subsection \<open>C2: the round trip of the amount codec\<close>

text \<open>
  For NEAR (24 decimals) and the amount 5.0 the round trip returns 4.999999999999999, the
  double 5629499534213119 / 2 ^ 50: it is off by about \<open>8.9e-16\<close>, far more than one
  yoctoNEAR.
\<close>

theorem roundtrip_near_counterexample:
  "ASSET_MAP ''NEAR'' = Some \<lparr>token_id = ''wrap.near'', omft = None, decimals = 24, shielded = None\<rparr> \<and>
   roundtrip (Finite 5) 24 = Inr (Finite (5629499534213119 / 1125899906842624)) \<and>
   \<not> \<bar>5629499534213119 / 1125899906842624 - 5\<bar> \<le> (1 / 10 ^ 24 :: rat)"
  by (simp add: ASSET_MAP_def roundtrip_def near_five bind_err_def from_decimals_near_five)

text \<open>
  C2, as amended. For every registered asset and every amount \<open>x\<close> with
  \<open>0 < x \<le> 10 ^ 100\<close>, \<open>from_decimals (to_decimals x)\<close> returns a float that differs
  from \<open>x\<close> by at most one unit of the asset's smallest denomination plus \<open>x / 2 ^ 51\<close>,
  the rounding error of the double-precision operations on the way.
\<close>

theorem roundtrip_within:
  assumes "ASSET_MAP symbol = Some a" and "0 < x" and "x \<le> 10 ^ 100"
  shows "\<exists>r. roundtrip (Finite x) (decimals a) = Inr (Finite r) \<and>
             \<bar>r - x\<bar> \<le> 1 / 10 ^ decimals a + x / 2 ^ 51"
proof -
  consider "decimals a = 6" | "decimals a = 8" | "decimals a = 24"
    using ASSET_MAP_decimals[OF assms(1)] by blast
  then show ?thesis
  proof cases
    case 1
    show ?thesis unfolding 1
      using roundtrip_core[OF assms(2,3) float_pow10(1), of "10 ^ 6"] by simp
  next
    case 2
    show ?thesis unfolding 2
      using roundtrip_core[OF assms(2,3) float_pow10(2), of "10 ^ 8"] by simp
  next
    case 3
    show ?thesis unfolding 3
      using roundtrip_core[OF assms(2,3) float_pow10(3), of "10 ^ 24"] by simp
  qed
qed

theorem roundtrip_within_witness:
  "ASSET_MAP ''NEAR'' = Some \<lparr>token_id = ''wrap.near'', omft = None, decimals = 24, shielded = None\<rparr> \<and>
   (\<exists>r. roundtrip (Finite 5) 24 = Inr (Finite r) \<and> \<bar>r - 5\<bar> \<le> 1 / 10 ^ 24 + 5 / 2 ^ 51)"
  using roundtrip_within[of "''NEAR''"
          "\<lparr>token_id = ''wrap.near'', omft = None, decimals = 24, shielded = None\<rparr>" 5]
  by (simp add: ASSET_MAP_def)

subsection \<open>C3: the quote selector\<close>

text \<open>
  C3. The claim, like the docstring of \<open>select_best_option\<close>, expects the quote with the
  maximal output amount. The selector compares the quotes by \<open>float(amount_out)\<close>: the
  amounts \<open>2 ^ 53\<close> and \<open>2 ^ 53 + 1\<close> are the same double, so on these two quotes the
  first one is returned although the amount of the second is larger.
\<close>

theorem select_best_option_not_max:
  "select_best_option [[(''amount_out'', ''9007199254740992'')], [(''amount_out'', ''9007199254740993'')]]
     = Inr [(''amount_out'', ''9007199254740992'')] \<and>
   amount_out_value [(''amount_out'', ''9007199254740992'')] = Some 9007199254740992 \<and>
   amount_out_value [(''amount_out'', ''9007199254740993'')] = Some 9007199254740993 \<and>
   (9007199254740992 :: nat) < 9007199254740993"
  by (simp add: select_best_option_def py_max_def amount_out_key_def dict_get_def bind_err_def
        float_of_str_digits is_digit_def round_double_numeral rd_2p53_1 amount_out_value_def)

subsection \<open>C4: default shielding\<close>

text \<open>
  C4. When \<open>create_shielded_token_diff_quote\<close> is called without shield options and
  returns a commitment, the commitment has shield parameters if and only if the input or
  the output token is privacy-capable in the registry; then they are the flag alone,
  without memo and viewing key. Otherwise the field is None.
\<close>

theorem default_shielding:
  assumes "create_shielded_token_diff_quote w acct token_in amount_in token_out amount_out None = (Inr c, evs)"
  shows "(shield_params c \<noteq> None \<longleftrightarrow> privacy_capable token_in \<or> privacy_capable token_out) \<and>
         (shield_params c \<noteq> None \<longrightarrow>
            shield_params c = Some \<lparr>sp_shielded = True, sp_memo = None, sp_viewing_key = None\<rparr>)"
  using create_shielded_default_params[OF assms] by (simp add: privacy_capable_iff)

theorem default_shielding_witness:
  "map_sum id shield_params
     (fst (create_shielded_token_diff_quote (sample_world (Raised ''unused'') (Raised ''unused''))
             sample_account ''ZEC'' (Finite 1) ''USDC'' (Finite 30) None))
     = Inr (Some \<lparr>sp_shielded = True, sp_memo = None, sp_viewing_key = None\<rparr>) \<and>
   privacy_capable ''ZEC'' \<and>
   map_sum id shield_params
     (fst (create_shielded_token_diff_quote (sample_world (Raised ''unused'') (Raised ''unused''))
             sample_account ''USDC'' (Finite 30) ''NEAR'' (Finite (1 / 2)) None))
     = Inr None \<and>
   \<not> privacy_capable ''USDC'' \<and> \<not> privacy_capable ''NEAR''"
  using default_shielding[OF sample_zec_usdc] default_shielding[OF sample_usdc_near]
  by (simp add: sample_zec_usdc sample_usdc_near privacy_capable_iff)

subsection \<open>C5: the quote fetcher\<close>




subsection \<open>C6: the publisher\<close>



subsection \<open>C7: no liquidity\<close>

text \<open>
  C7. When the request has been built and the quote fetch returns the empty list,
  \<open>intent_swap_zec\<close> ends with the ValueError "No swap options available for ... to ..."
  (the spec's NoLiquidity), and the only calls it has made are quote requests: nothing was
  handed to the signer and nothing was published.
\<close>

theorem no_liquidity:
  assumes "set_asset_in IntentRequest_new token_in amount_in = (None, r1)"
    and "set_asset_out r1 token_out None = (None, req)"
    and "fst (fetch_options w req) = Inr []"
  shows "fst (intent_swap_zec w acct token_in amount_in token_out privacy_level)
           = Inl (ValueError (''No swap options available for '' @ token_in @ '' to '' @ token_out))
         \<and> list_all is_GetQuotes (snd (intent_swap_zec w acct token_in amount_in token_out privacy_level))"
proof -
  obtain evs where f: "fetch_options w req = (Inr [], evs)"
    using assms(3) by (cases "fetch_options w req") simp
  have "list_all is_GetQuotes evs" using fetch_options_events[of w req] by (simp add: f)
  then show ?thesis by (simp add: intent_swap_zec_def assms(1,2) f)
qed

theorem no_liquidity_witness:
  "fst (intent_swap_zec (sample_world (Response 200 (Result [])) (Response 200 (Result [])))
          sample_account ''ZEC'' (Finite 1) ''NEAR'' ''shielded'')
     = Inl (ValueError ''No swap options available for ZEC to NEAR'') \<and>
   list_all is_GetQuotes
     (snd (intent_swap_zec (sample_world (Response 200 (Result [])) (Response 200 (Result [])))
          sample_account ''ZEC'' (Finite 1) ''NEAR'' ''shielded''))"
proof -
  let ?r1 = "\<lparr>request = [(''assetIn'', ''nep141:zcash.factory.bridge.near''), (''amountIn'', ''100000000'')],
             thread = None, min_deadline_ms = 120000\<rparr>"
  let ?req = "\<lparr>request = [(''assetIn'', ''nep141:zcash.factory.bridge.near''), (''amountIn'', ''100000000''),
                          (''assetOut'', ''near'')],
             thread = None, min_deadline_ms = 120000\<rparr>"
  have h1: "set_asset_in IntentRequest_new ''ZEC'' (Finite 1) = (None, ?r1)"
    by (rule zec_request)
  have h2: "set_asset_out ?r1 ''NEAR'' None = (None, ?req)"
    by (simp add: set_asset_out_def ASSET_MAP_def get_asset_id_def)
  have h3: "fst (fetch_options (sample_world (Response 200 (Result [])) (Response 200 (Result []))) ?req)
              = Inr []"
    by (simp add: fetch_options_def fetch_options_try_def serialize_def dict_get_def bind_err_def
          sample_world_def post_result_cases)
  show ?thesis
    using no_liquidity[OF h1 h2 h3, of sample_account "''shielded''"] by simp
qed

subsection \<open>C8: the privacy ratio\<close>

text \<open>
  C8. For the portfolio of 0 USDC, 10 NEAR and 1 ZEC the analysis values the portfolio at
  20 NEAR and the ZEC holding at half of it (\<open>distributions\<close> gives ZEC 50 percent), but
  its \<open>privacy_ratio\<close> is 9.090909090909092: \<open>calculate_privacy_ratio\<close> divides the ZEC
  balance by the sum of the raw balances, 1 / 11, without the exchange rates. The privacy
  ratio is not the share of the portfolio's value held in privacy-capable assets.
\<close>

theorem privacy_ratio_unweighted:
  "analyze_portfolio [(''USDC'', Finite 0), (''NEAR'', Finite 10), (''ZEC'', Finite 1)]
     = Inr \<lparr>portfolio = [(''USDC'', Finite 0), (''NEAR'', Finite 10), (''ZEC'', Finite 1)],
            total_value_near = Finite 20,
            distributions = [(''USDC'', Finite 0), (''NEAR'', Finite 50), (''ZEC'', Finite 50)],
            privacy_ratio = Finite (5117726849284655 / 562949953421312)\<rparr>"
proof -
  have h: "fdiv (Finite 10) (Finite 20) = Inr (Finite (1 / 2))"
    by (simp add: rd_half)
  have z: "fdiv (Finite 0) (Finite 20) = Inr (Finite 0)"
    by (simp add: round_double_0)
  have m: "fmul (Finite 1) (Finite 10) = Finite 10" "fmul (Finite 0) (Finite (1 / 4)) = Finite 0"
    "fmul (Finite (1 / 2)) (Finite 100) = Finite 50" "fmul (Finite 0) (Finite 100) = Finite 0"
    "fadd (Finite 10) (Finite 0) = Finite 10" "fadd (Finite 10) (Finite 10) = Finite 20"
    by (simp_all add: round_double_numeral round_double_0)
  show ?thesis
    unfolding analyze_portfolio_def Let_def
    by (simp add: dict_get_default_def value_near_def h z m bind_err_def privacy_ratio_eval
          del: fmul.simps fdiv.simps fadd.simps)
qed

subsection \<open>C9: swapping a token for itself\<close>

text \<open>
  C9. A commitment that \<open>create_shielded_token_diff_quote\<close> returns carries one
  token-diff intent. When the input and the output token are the same, its diff has a
  single entry: the output amount under the shared asset identifier, the negated input
  amount being overwritten. When the tokens differ, the diff has the two entries, the
  negated input amount and the output amount, under distinct identifiers.
\<close>

theorem same_token_single_entry:
  assumes "create_shielded_token_diff_quote w acct token_in amount_in token_out amount_out so = (Inr c, evs)"
  shows "\<exists>id_in id_out a_in a_out s_in s_out d.
           get_asset_id token_in = Inr id_in \<and> get_asset_id token_out = Inr id_out \<and>
           asset_of token_in = Inr a_in \<and> to_decimals amount_in (decimals a_in) = Inr s_in \<and>
           asset_of token_out = Inr a_out \<and> to_decimals amount_out (decimals a_out) = Inr s_out \<and>
           intents (payload c) = [\<lparr>intent = ''token_diff'', diff = d\<rparr>] \<and>
           (token_in = token_out \<longrightarrow> d = [(id_out, s_out)]) \<and>
           (token_in \<noteq> token_out \<longrightarrow> d = [(id_in, ''-'' @ s_in), (id_out, s_out)] \<and> id_in \<noteq> id_out)"
proof -
  obtain id_in a_in s_in id_out a_out s_out where
    h: "get_asset_id token_in = Inr id_in" "asset_of token_in = Inr a_in"
       "to_decimals amount_in (decimals a_in) = Inr s_in"
       "get_asset_id token_out = Inr id_out" "asset_of token_out = Inr a_out"
       "to_decimals amount_out (decimals a_out) = Inr s_out"
       "intents (payload c) =
          [\<lparr>intent = ''token_diff'',
            diff = AList.update id_out s_out (AList.update id_in (''-'' @ s_in) [])\<rparr>]"
    using create_shielded_Inr[OF assms] by blast
  have same: "id_in = id_out" if "token_in = token_out" using that h(1,4) by simp
  have differ: "id_in \<noteq> id_out" if "token_in \<noteq> token_out"
    using that get_asset_id_inj[OF h(1), of token_out] h(4) by auto
  show ?thesis
    using h same differ by (cases "token_in = token_out") auto
qed

theorem same_token_single_entry_witness:
  "map_sum id (\<lambda>c. map diff (intents (payload c)))
     (fst (create_shielded_token_diff_quote (sample_world (Raised ''unused'') (Raised ''unused''))
             sample_account ''ZEC'' (Finite 1) ''ZEC'' (Finite 2) None))
     = Inr [[(''nep141:zcash.factory.bridge.near'', ''200000000'')]] \<and>
   map_sum id (\<lambda>c. map diff (intents (payload c)))
     (fst (create_shielded_token_diff_quote (sample_world (Raised ''unused'') (Raised ''unused''))
             sample_account ''ZEC'' (Finite 1) ''USDC'' (Finite 30) None))
     = Inr [[(''nep141:zcash.factory.bridge.near'', ''-100000000''),
             (''nep141:a0b86991c6218b36c1d19d4a2e9eb0ce3606eb48.factory.bridge.near'', ''30000000'')]]"
  using same_token_single_entry[OF sample_zec_zec] same_token_single_entry[OF sample_zec_usdc]
  by (simp add: sample_zec_zec sample_zec_usdc token_diff_quote_def)

subsection \<open>C10: serializing a request\<close>

text \<open>
  A request object that was given its dictionary by the constructor serializes without any
  setter call.
\<close>

theorem serialize_prebuilt_counterexample:
  "serialize (run_calls sample_request [])
     = Inr \<lparr>assets = [(''in'', ''near''), (''out'', ''nep141:zcash.factory.bridge.near'')],
            amounts = [(''in'', ''1000'')], deadline_type = ''relative'', deadline_ms = 120000,
            slippage = None\<rparr>"
  by (simp add: run_calls_def sample_request_def serialize_def IntentRequest_init_def
        dict_get_def bind_err_def)

text \<open>
  C10, as amended. For a request object created as \<open>IntentRequest()\<close>, without a
  dictionary, and any sequence of setter calls made on it: if \<open>set_asset_in\<close> was never
  called, \<open>serialize\<close> fails with KeyError \<open>assetIn\<close>; if \<open>set_asset_out\<close> was never
  called, it fails with KeyError \<open>assetIn\<close> or \<open>assetOut\<close>; so it returns a request only
  after both setters have been called.
\<close>

theorem serialize_needs_setters:
  "(list_all (\<lambda>c. \<not> is_SetAssetIn c) calls \<longrightarrow>
      serialize (run_calls IntentRequest_new calls) = Inl (KeyError ''assetIn'')) \<and>
   (list_all (\<lambda>c. \<not> is_SetAssetOut c) calls \<longrightarrow>
      serialize (run_calls IntentRequest_new calls) = Inl (KeyError ''assetIn'') \<or>
      serialize (run_calls IntentRequest_new calls) = Inl (KeyError ''assetOut'')) \<and>
   (\<forall>r. serialize (run_calls IntentRequest_new calls) = Inr r \<longrightarrow>
      (\<exists>c \<in> set calls. is_SetAssetIn c) \<and> (\<exists>c \<in> set calls. is_SetAssetOut c))"
proof -
  have new: "map_of (request IntentRequest_new) k = None" for k
    by (simp add: IntentRequest_new_def IntentRequest_init_def)
  have a: "serialize (run_calls IntentRequest_new calls) = Inl (KeyError ''assetIn'')"
    if "list_all (\<lambda>c. \<not> is_SetAssetIn c) calls"
    using run_calls_assetIn[OF that, of IntentRequest_new] by (simp add: new serialize_KeyError(1))
  have b: "serialize (run_calls IntentRequest_new calls) = Inl (KeyError ''assetIn'') \<or>
           serialize (run_calls IntentRequest_new calls) = Inl (KeyError ''assetOut'')"
    if "list_all (\<lambda>c. \<not> is_SetAssetOut c) calls"
    using run_calls_assetOut[OF that, of IntentRequest_new] by (simp add: new serialize_KeyError(2))
  have c: "(\<exists>c \<in> set calls. is_SetAssetIn c) \<and> (\<exists>c \<in> set calls. is_SetAssetOut c)"
    if "serialize (run_calls IntentRequest_new calls) = Inr r" for r
  proof -
    have "\<not> list_all (\<lambda>c. \<not> is_SetAssetIn c) calls" using a that by auto
    moreover have "\<not> list_all (\<lambda>c. \<not> is_SetAssetOut c) calls" using b that by auto
    ultimately show ?thesis by (simp add: list_all_iff)
  qed
  show ?thesis using a b c by blast
qed

theorem serialize_needs_setters_witness:
  "serialize (run_calls IntentRequest_new [SetAssetOut ''NEAR'' None]) = Inl (KeyError ''assetIn'') \<and>
   serialize (run_calls IntentRequest_new [SetAssetIn ''ZEC'' (Finite 1)]) = Inl (KeyError ''assetOut'') \<and>
   serialize (run_calls IntentRequest_new [SetAssetIn ''ZEC'' (Finite 1), SetAssetOut ''NEAR'' None])
     = Inr \<lparr>assets = [(''in'', ''nep141:zcash.factory.bridge.near''), (''out'', ''near'')],
            amounts = [(''in'', ''100000000'')], deadline_type = ''relative'', deadline_ms = 120000,
            slippage = None\<rparr>"
  using serialize_needs_setters[of "[SetAssetOut ''NEAR'' None]"]
    serialize_needs_setters[of "[SetAssetIn ''ZEC'' (Finite 1)]"]
    serialize_needs_setters[of "[SetAssetIn ''ZEC'' (Finite 1), SetAssetOut ''NEAR'' None]"]
  by (simp add: run_calls_def zec_request set_asset_out_def ASSET_MAP_def get_asset_id_def
        serialize_def dict_get_def bind_err_def)

end
